theory Spec2Isabelle
  imports Main "HOL-Library.AList"
begin

section \<open>Strings, exceptions and JSON values\<close>

text \<open>
  A Python \<open>str\<close> is a sequence of Unicode code points, so it is a list of naturals
  here; the program's patterns hold CJK characters, which are single code points for
  Python's \<open>re\<close>. \<open>u\<close> turns an ASCII literal into such a string.
\<close>

type_synonym str = "nat list"

definition u :: "string \<Rightarrow> str" where
  "u s = map of_char s"

text \<open>An exception is its class name and its message (what \<open>str(e)\<close> prints).\<close>

datatype exn = Exn (exn_type: str) (exn_msg: str)

section \<open>Python's \<open>re.search\<close> for the patterns of the program\<close>

text \<open>
  \<open>\s\<close> on a \<open>str\<close> pattern: the code points for which \<open>str.isspace\<close> holds.
\<close>

definition is_space :: "nat \<Rightarrow> bool" where
  "is_space c \<longleftrightarrow>
     (0x09 \<le> c \<and> c \<le> 0x0D) \<or> (0x1C \<le> c \<and> c \<le> 0x20) \<or> c = 0x85 \<or> c = 0xA0 \<or>
     c = 0x1680 \<or> (0x2000 \<le> c \<and> c \<le> 0x200A) \<or> c = 0x2028 \<or> c = 0x2029 \<or>
     c = 0x202F \<or> c = 0x205F \<or> c = 0x3000"

text \<open>
  A literal under \<open>re.I\<close>. The literals of the program's patterns are ASCII and CJK.
  An ASCII letter matches its two cases, and \<open>i\<close>, \<open>s\<close>, \<open>k\<close> also match the code
  points that Unicode case folding sends to them (U+0130, U+0131, U+017F, U+212A);
  every other literal of the program is uncased and matches itself only.
\<close>

definition ascii_lower :: "nat \<Rightarrow> nat" where
  "ascii_lower c = (if 0x41 \<le> c \<and> c \<le> 0x5A then c + 0x20 else c)"

definition ci_match :: "nat \<Rightarrow> nat \<Rightarrow> bool" where
  "ci_match p c \<longleftrightarrow>
     (let lo = ascii_lower p in
      if 0x61 \<le> lo \<and> lo \<le> 0x7A then
        ascii_lower c = lo \<or>
        (lo = 0x69 \<and> (c = 0x130 \<or> c = 0x131)) \<or>
        (lo = 0x73 \<and> c = 0x17F) \<or>
        (lo = 0x6B \<and> c = 0x212A)
      else c = p)"

record flags =
  IGNORECASE :: bool
  DOTALL :: bool

definition no_flags :: flags where
  "no_flags = \<lparr>IGNORECASE = False, DOTALL = False\<rparr>"

definition re_I :: flags where
  "re_I = \<lparr>IGNORECASE = True, DOTALL = False\<rparr>"

definition re_I_S :: flags where
  "re_I_S = \<lparr>IGNORECASE = True, DOTALL = True\<rparr>"

definition lit_ok :: "flags \<Rightarrow> nat \<Rightarrow> nat \<Rightarrow> bool" where
  "lit_ok fl p c = (if IGNORECASE fl then ci_match p c else c = p)"

text \<open>Does the literal \<open>w\<close> stand at the head of the input?\<close>

fun lit_prefix :: "flags \<Rightarrow> str \<Rightarrow> str \<Rightarrow> bool" where
  "lit_prefix fl [] s = True"
| "lit_prefix fl (p # ps) [] = False"
| "lit_prefix fl (p # ps) (c # cs) = (lit_ok fl p c \<and> lit_prefix fl ps cs)"

text \<open>
  The items of the patterns that consume one character: a literal, \<open>\s\<close>, a set
  \<open>[...]\<close>, a negated set \<open>[^...]\<close>, the dot, and an item behind a negative lookahead
  for a literal, \<open>(?!w)a\<close>. The sets of the program hold no letters, so \<open>re.I\<close> does not
  change them.
\<close>

datatype atom =
    Lit nat
  | Space
  | OneOf "nat list"
  | NoneOf "nat list"
  | Dot
  | NotAhead "nat list" atom

fun atom_ok :: "flags \<Rightarrow> atom \<Rightarrow> nat \<Rightarrow> str \<Rightarrow> bool" where
  "atom_ok fl (Lit p) c cs = lit_ok fl p c"
| "atom_ok fl Space c cs = is_space c"
| "atom_ok fl (OneOf xs) c cs = (c \<in> set xs)"
| "atom_ok fl (NoneOf xs) c cs = (c \<notin> set xs)"
| "atom_ok fl Dot c cs = (DOTALL fl \<or> c \<noteq> 0x0A)"
| "atom_ok fl (NotAhead w a) c cs = (\<not> lit_prefix fl w (c # cs) \<and> atom_ok fl a c cs)"

text \<open>
  A pattern is an alternation of sequences of pieces: an item with its (greedy)
  quantifier, or the opening or closing parenthesis of the one capturing group.
\<close>

datatype quant = One | Opt | Star | Plus

datatype piece = P atom quant | GOpen | GClose

type_synonym regex = "piece list list"

text \<open>
  The backtracking matcher at one position. It tries the choices in the order Python's
  engine does (a greedy quantifier takes a character first and gives it back when the
  rest fails) and returns the first success: the unread input and the text of group 1.
  \<open>opn\<close> is the input that was unread when the group opened.
\<close>

fun match_here ::
  "flags \<Rightarrow> piece list \<Rightarrow> str \<Rightarrow> str option \<Rightarrow> str option \<Rightarrow> (str \<times> str option) option"
where
  "match_here fl [] s opn grp = Some (s, grp)"
| "match_here fl (GOpen # ps) s opn grp = match_here fl ps s (Some s) grp"
| "match_here fl (GClose # ps) s opn grp =
     match_here fl ps s opn
       (case opn of None \<Rightarrow> None | Some s0 \<Rightarrow> Some (take (length s0 - length s) s0))"
| "match_here fl (P a One # ps) [] opn grp = None"
| "match_here fl (P a One # ps) (c # cs) opn grp =
     (if atom_ok fl a c cs then match_here fl ps cs opn grp else None)"
| "match_here fl (P a Opt # ps) [] opn grp = match_here fl ps [] opn grp"
| "match_here fl (P a Opt # ps) (c # cs) opn grp =
     (case (if atom_ok fl a c cs then match_here fl ps cs opn grp else None) of
        Some r \<Rightarrow> Some r
      | None \<Rightarrow> match_here fl ps (c # cs) opn grp)"
| "match_here fl (P a Star # ps) [] opn grp = match_here fl ps [] opn grp"
| "match_here fl (P a Star # ps) (c # cs) opn grp =
     (case (if atom_ok fl a c cs then match_here fl (P a Star # ps) cs opn grp else None) of
        Some r \<Rightarrow> Some r
      | None \<Rightarrow> match_here fl ps (c # cs) opn grp)"
| "match_here fl (P a Plus # ps) [] opn grp = None"
| "match_here fl (P a Plus # ps) (c # cs) opn grp =
     (if atom_ok fl a c cs then match_here fl (P a Star # ps) cs opn grp else None)"

text \<open>The alternatives of a pattern, left to right, at one position.\<close>

fun match_alts :: "flags \<Rightarrow> regex \<Rightarrow> str \<Rightarrow> (str \<times> str option) option" where
  "match_alts fl [] s = None"
| "match_alts fl (alt # alts) s =
     (case match_here fl alt s None None of
        Some r \<Rightarrow> Some r
      | None \<Rightarrow> match_alts fl alts s)"

text \<open>
  \<open>re.search\<close>: the first position, left to right, where the pattern matches (the empty
  position at the end of the input included). The result is the match's group 1
  (\<open>None\<close> inside when the pattern has no group).
\<close>

fun re_search :: "regex \<Rightarrow> str \<Rightarrow> flags \<Rightarrow> str option option" where
  "re_search r [] fl = map_option snd (match_alts fl r [])"
| "re_search r (c # cs) fl =
     (case match_alts fl r (c # cs) of
        Some m \<Rightarrow> Some (snd m)
      | None \<Rightarrow> re_search r cs fl)"

definition matches :: "regex \<Rightarrow> str \<Rightarrow> flags \<Rightarrow> bool" where
  "matches r s fl \<longleftrightarrow> re_search r s fl \<noteq> None"

text \<open>Building patterns: a literal word, and one quantified item.\<close>

definition lits :: "str \<Rightarrow> piece list" where
  "lits w = map (\<lambda>c. P (Lit c) One) w"

definition word :: "string \<Rightarrow> piece list" where
  "word s = lits (u s)"

section \<open>The world outside: HTTP, the HTML parser, the library\<close>

text \<open>
  What \<open>resp.json()\<close> and \<open>json.loads\<close> return. A dict is an association list with
  distinct keys, in insertion order. Of a float the program observes its truth value
  only, so a float is whether it is non-zero.
\<close>

datatype json =
    JNull
  | JBool bool
  | JInt int
  | JFloat bool
  | JStr str
  | JArr "json list"
  | JObj "(str \<times> json) list"

text \<open>Python's truth value of such an object (\<open>bool(x)\<close>, \<open>x or y\<close>, \<open>if x\<close>).\<close>

fun truthy :: "json \<Rightarrow> bool" where
  "truthy JNull = False"
| "truthy (JBool b) = b"
| "truthy (JInt i) = (i \<noteq> 0)"
| "truthy (JFloat nz) = nz"
| "truthy (JStr s) = (s \<noteq> [])"
| "truthy (JArr xs) = (xs \<noteq> [])"
| "truthy (JObj kvs) = (kvs \<noteq> [])"

text \<open>
  The tree BeautifulSoup builds: a string, or a tag with its name, its attribute dict
  and its children. The soup itself is the list of top-level nodes.
\<close>

datatype node = NavigableString str | Tag str "(str \<times> str) list" "node list"

text \<open>
  The keyword arguments \<open>http_request\<close> passes on to \<open>session.request\<close>
  (\<open>None\<close>: the keyword is not given), and the request that reaches the session.
\<close>

record kwargs =
  headers :: "(str \<times> str) list"
  data :: "(str \<times> str) list option"
  allow_redirects :: "bool option"

record request =
  req_method :: str
  req_url :: str
  req_timeout :: nat
  req_kwargs :: kwargs

text \<open>
  What the program reads of a \<open>requests.Response\<close>: \<open>status_code\<close>, \<open>text\<close>, \<open>url\<close>,
  the \<open>Content-Type\<close> header (\<open>None\<close> when absent) and what \<open>json()\<close> does.
\<close>

record response =
  status_code :: int
  resp_text :: str
  resp_url :: str
  content_type :: "str option"
  resp_json :: "exn + json"

text \<open>
  The status constants of the script. An outcome is a status with its detail; the
  detail is a Python object, a \<open>str\<close> nearly always and whatever the JSON answer holds
  in one branch of \<open>perform_checkin\<close>.
\<close>

datatype status = SUCCESS | ALREADY | TWO_FA | FAILED | SKIPPED

type_synonym outcome = "status \<times> json"

text \<open>A recorded result: \<open>(status, label, detail)\<close>.\<close>

type_synonym result = "status \<times> str \<times> json"

text \<open>
  The collaborators of the script, for a world of type \<open>'w\<close> (the network, the remote
  site and the session's cookies). \<open>Session_request\<close> is \<open>session.request\<close>: it returns
  a response or raises, and changes the world. \<open>Session_new\<close> is \<open>requests.Session()\<close>
  with its header update. \<open>report\<close> stands for lines 485 to 514 of \<open>main\<close> (the console
  summary and the optional Telegram message), which give nothing back to \<open>main\<close>.
  \<open>BeautifulSoup\<close> is the \<open>html.parser\<close> parse, \<open>HAVE_BS4\<close> whether the import worked;
  \<open>urljoin\<close> (which raises \<open>ValueError\<close> on some malformed URLs), \<open>str_lower\<close>,
  \<open>str_upper\<close> and \<open>json_loads\<close> are the library functions of these names. Delays (\<open>time.sleep\<close>) and \<open>log\<close> lines are left out.
\<close>

record 'w env =
  HAVE_BS4 :: bool
  BeautifulSoup :: "str \<Rightarrow> exn + node list"
  urljoin :: "str \<Rightarrow> str \<Rightarrow> exn + str"
  str_lower :: "str \<Rightarrow> str"
  str_upper :: "str \<Rightarrow> str"
  json_loads :: "str \<Rightarrow> exn + json"
  Session_request :: "request \<Rightarrow> 'w \<Rightarrow> (exn + response) \<times> 'w"
  Session_new :: "'w \<Rightarrow> 'w"
  report :: "result list \<Rightarrow> 'w \<Rightarrow> 'w"

section \<open>\<open>http_request\<close>: the resilient transport\<close>

text \<open>Decimal digits of an integer, for \<open>f"Server error: {resp.status_code}"\<close>.\<close>

fun str_nat :: "nat \<Rightarrow> str" where
  "str_nat n = (if n < 10 then [0x30 + n] else str_nat (n div 10) @ [0x30 + n mod 10])"

declare str_nat.simps [simp del]

definition str_int :: "int \<Rightarrow> str" where
  "str_int i = (if i < 0 then 0x2D # str_nat (nat (- i)) else str_nat (nat i))"

definition server_error :: "int \<Rightarrow> exn" where
  "server_error code = Exn (u ''RequestException'') (u ''Server error: '' @ str_int code)"

text \<open>\<open>raise last_exc\<close> with \<open>last_exc = None\<close>, reached only when \<open>retries\<close> is 0.\<close>

definition raise_None :: exn where
  "raise_None = Exn (u ''TypeError'') (u ''exceptions must derive from BaseException'')"

text \<open>
  The loop \<open>for attempt in range(retries)\<close>, by the number of attempts left. A response
  with status 500 or more is raised as an exception inside the \<open>try\<close>; the handler
  raises again on the last attempt (none left after this one) and goes on otherwise.
\<close>

fun http_request_loop ::
  "'w env \<Rightarrow> request \<Rightarrow> nat \<Rightarrow> exn option \<Rightarrow> 'w \<Rightarrow> (exn + response) \<times> 'w"
where
  "http_request_loop env req 0 last_exc w =
     (Inl (case last_exc of None \<Rightarrow> raise_None | Some e \<Rightarrow> e), w)"
| "http_request_loop env req (Suc n) last_exc w =
     (case Session_request env req w of
        (Inr resp, w') \<Rightarrow>
          if status_code resp \<ge> 500 then
            (if n = 0 then (Inl (server_error (status_code resp)), w')
             else http_request_loop env req n (Some (server_error (status_code resp))) w')
          else (Inr resp, w')
      | (Inl e, w') \<Rightarrow>
          if n = 0 then (Inl e, w') else http_request_loop env req n (Some e) w')"

text \<open>\<open>session.request(method, url, timeout=timeout, **kwargs)\<close> with \<open>timeout=30\<close>.\<close>

definition session_call :: "str \<Rightarrow> str \<Rightarrow> kwargs \<Rightarrow> request" where
  "session_call method url kw =
     \<lparr>req_method = method, req_url = url, req_timeout = 30, req_kwargs = kw\<rparr>"

definition http_request ::
  "'w env \<Rightarrow> str \<Rightarrow> str \<Rightarrow> nat \<Rightarrow> kwargs \<Rightarrow> 'w \<Rightarrow> (exn + response) \<times> 'w"
where
  "http_request env method url retries kw w =
     http_request_loop env (session_call method url kw) retries None w"

text \<open>The default \<open>retries=3\<close>, which every call of the program uses.\<close>

definition retries_default :: nat where
  "retries_default = 3"

text \<open>
  One attempt fails when the session raises or answers with a status of 500 or more.
\<close>

definition attempt_fails :: "(exn + response) \<Rightarrow> bool" where
  "attempt_fails r = (case r of Inl e \<Rightarrow> True | Inr resp \<Rightarrow> status_code resp \<ge> 500)"

text \<open>The exception a failed attempt leaves in the handler.\<close>

definition attempt_error :: "(exn + response) \<Rightarrow> exn" where
  "attempt_error r = (case r of Inl e \<Rightarrow> e | Inr resp \<Rightarrow> server_error (status_code resp))"

text \<open>
  A mocked transport for concrete runs: the world is the queue of scripted replies
  and the log of the requests sent so far; a request takes the next reply, and a
  connection error once the script is used up.
\<close>

type_synonym mock = "(exn + response) list \<times> request list"

definition mock_request :: "request \<Rightarrow> mock \<Rightarrow> (exn + response) \<times> mock" where
  "mock_request req w =
     (case fst w of
        [] \<Rightarrow> (Inl (Exn (u ''ConnectionError'') []), ([], snd w @ [req]))
      | r # rs \<Rightarrow> (r, (rs, snd w @ [req])))"

definition page :: "int \<Rightarrow> str \<Rightarrow> str \<Rightarrow> response" where
  "page code body url =
     \<lparr>status_code = code, resp_text = body, resp_url = url,
      content_type = Some (u ''text/html''), resp_json = Inl (Exn (u ''JSONDecodeError'') [])\<rparr>"

text \<open>
  The mocked collaborators: \<open>urljoin\<close> joins a host and an absolute path and does not
  raise, the case functions are those of ASCII, a new session leaves the mocked world
  as it is and the report does nothing.
\<close>

definition ascii_upper :: "nat \<Rightarrow> nat" where
  "ascii_upper c = (if 0x61 \<le> c \<and> c \<le> 0x7A then c - 0x20 else c)"

definition mock_env ::
  "bool \<Rightarrow> (str \<Rightarrow> exn + node list) \<Rightarrow> (str \<Rightarrow> exn + json) \<Rightarrow> mock env" where
  "mock_env have_bs4 parser loads =
     \<lparr>HAVE_BS4 = have_bs4, BeautifulSoup = parser, urljoin = (\<lambda>base ref. Inr (base @ ref)),
      str_lower = map ascii_lower, str_upper = map ascii_upper, json_loads = loads,
      Session_request = mock_request, Session_new = (\<lambda>w. w), report = (\<lambda>rs w. w)\<rparr>"

definition no_parser :: "str \<Rightarrow> exn + node list" where
  "no_parser html = Inl (Exn (u ''NameError'') [])"

definition no_loads :: "str \<Rightarrow> exn + json" where
  "no_loads s = Inl (Exn (u ''JSONDecodeError'') [])"

definition get_kw :: kwargs where
  "get_kw = \<lparr>headers = [], data = None, allow_redirects = None\<rparr>"

section \<open>\<open>is_2fa_or_human_challenge\<close>: the challenge detector\<close>

text \<open>The thirteen patterns of the list, in its order, and the pattern for the URL.\<close>

definition challenge_patterns :: "piece list list" where
  "challenge_patterns =
    [word ''Two'' @ [P Space Star] @ word ''Factor'',
     word ''Two'' @ [P (Lit 0x2D) Opt] @ word ''Factor'',
     lits [0x4E8C, 0x6B21, 0x9A8C, 0x8BC1],
     lits [0x4E8C, 0x6B65, 0x9A8C, 0x8BC1],
     lits [0x4E24, 0x6B65, 0x9A8C, 0x8BC1],
     lits [0x9A8C, 0x8BC1, 0x7801],
     lits [0x4EBA, 0x673A, 0x9A8C, 0x8BC1],
     lits [0x673A, 0x5668, 0x4EBA, 0x9A8C, 0x8BC1],
     word ''hcaptcha'',
     word ''recaptcha'',
     word ''Please complete the security check'',
     word ''Attention Required!'' @ [P Space Star] @ word ''Cloudflare'',
     lits [0x5B89, 0x5168, 0x9A8C, 0x8BC1]]"

definition two_factor_url :: regex where
  "two_factor_url =
    [word ''two'' @ [P (OneOf [0x2D, 0x5F]) Opt] @ word ''factor'',
     word ''twofa'',
     word ''2fa'']"

definition is_2fa_or_human_challenge :: "str \<Rightarrow> str \<Rightarrow> bool" where
  "is_2fa_or_human_challenge text url =
     (if text = [] then False
      else if list_ex (\<lambda>p. matches [p] text re_I) challenge_patterns then True
      else if matches two_factor_url url re_I then True
      else False)"

section \<open>The parse tree: \<open>find_all\<close>, \<open>find\<close>, \<open>get\<close>, \<open>get_text\<close>\<close>

text \<open>The tags of a subtree in document order, its root first.\<close>

fun tags_of :: "node \<Rightarrow> node list" where
  "tags_of (NavigableString s) = []"
| "tags_of (Tag n attrs cs) = Tag n attrs cs # concat (map tags_of cs)"

fun tag_name :: "node \<Rightarrow> str" where
  "tag_name (NavigableString s) = []"
| "tag_name (Tag n attrs cs) = n"

fun children :: "node \<Rightarrow> node list" where
  "children (NavigableString s) = []"
| "children (Tag n attrs cs) = cs"

text \<open>\<open>tag.get(key)\<close>: the attribute, or \<open>None\<close>.\<close>

fun tag_get :: "node \<Rightarrow> str \<Rightarrow> str option" where
  "tag_get (NavigableString s) key = None"
| "tag_get (Tag n attrs cs) key = map_of attrs key"

text \<open>\<open>find_all(names)\<close> below a list of nodes (the soup, or the children of a tag).\<close>

definition find_all :: "node list \<Rightarrow> str list \<Rightarrow> node list" where
  "find_all nodes names = filter (\<lambda>t. tag_name t \<in> set names) (concat (map tags_of nodes))"

text \<open>\<open>find(name, attrs={key: val})\<close>: the first such tag in document order.\<close>

definition find_attr :: "node list \<Rightarrow> str \<Rightarrow> str \<Rightarrow> str \<Rightarrow> node option" where
  "find_attr nodes name key val =
     List.find (\<lambda>t. tag_get t key = Some val) (find_all nodes [name])"

fun all_strings :: "node \<Rightarrow> str list" where
  "all_strings (NavigableString s) = [s]"
| "all_strings (Tag n attrs cs) = concat (map all_strings cs)"

text \<open>\<open>str.strip()\<close>, \<open>str.rstrip(chars)\<close> and \<open>sep.join(xs)\<close>.\<close>

definition str_strip :: "str \<Rightarrow> str" where
  "str_strip s = rev (dropWhile is_space (rev (dropWhile is_space s)))"

definition str_rstrip :: "nat list \<Rightarrow> str \<Rightarrow> str" where
  "str_rstrip chars s = rev (dropWhile (\<lambda>c. c \<in> set chars) (rev s))"

fun str_join :: "str \<Rightarrow> str list \<Rightarrow> str" where
  "str_join sep [] = []"
| "str_join sep [x] = x"
| "str_join sep (x # y # ys) = x @ sep @ str_join sep (y # ys)"

text \<open>\<open>tag.get_text(sep, strip=True)\<close>: the stripped, non-empty strings, joined.\<close>

definition get_text :: "str \<Rightarrow> node \<Rightarrow> str" where
  "get_text sep t = str_join sep (filter (\<lambda>s. s \<noteq> []) (map str_strip (all_strings t)))"

section \<open>\<open>_extract_csrf_token_from_html\<close>: the token extractor\<close>

definition quotes :: "nat list" where
  "quotes = [0x22, 0x27]"

text \<open>
  The fallback pattern
  \<^verbatim>\<open>name\s*=\s*["']token["']\s+value\s*=\s*["']([^"']+)["']\<close>.
\<close>

definition token_regex :: regex where
  "token_regex =
    [word ''name'' @ [P Space Star, P (Lit 0x3D) One, P Space Star, P (OneOf quotes) One] @
     word ''token'' @ [P (OneOf quotes) One, P Space Plus] @
     word ''value'' @ [P Space Star, P (Lit 0x3D) One, P Space Star, P (OneOf quotes) One,
       GOpen, P (NoneOf quotes) Plus, GClose, P (OneOf quotes) One]]"

text \<open>
  The structured path (lines 119 to 127): \<open>None\<close> when the parser raises, when no
  input named \<open>token\<close> is found, or when its \<open>value\<close> is missing or empty.
\<close>

definition bs4_token :: "'w env \<Rightarrow> str \<Rightarrow> str option" where
  "bs4_token env html =
     (case BeautifulSoup env html of
        Inl e \<Rightarrow> None
      | Inr soup \<Rightarrow>
          (case find_attr soup (u ''input'') (u ''name'') (u ''token'') of
             None \<Rightarrow> None
           | Some token_input \<Rightarrow>
               (case tag_get token_input (u ''value'') of
                  None \<Rightarrow> None
                | Some v \<Rightarrow> if v \<noteq> [] then Some v else None)))"

text \<open>The regex path (lines 129 to 132): group 1 of the first match.\<close>

definition regex_token :: "str \<Rightarrow> str option" where
  "regex_token html =
     (case re_search token_regex html re_I of
        None \<Rightarrow> None
      | Some g \<Rightarrow> g)"

definition extract_csrf_token_from_html :: "'w env \<Rightarrow> str \<Rightarrow> str option" where
  "extract_csrf_token_from_html env html =
     (if html = [] then None
      else
        (case (if HAVE_BS4 env then bs4_token env html else None) of
           Some v \<Rightarrow> Some v
         | None \<Rightarrow> regex_token html))"

section \<open>\<open>login_whmcs\<close>: the authentication flow\<close>

definition USER_AGENT :: str where
  "USER_AGENT = u ''Mozilla/5.0 (Windows NT 10.0; Win64; x64) '' @
     u ''AppleWebKit/537.36 (KHTML, like Gecko) '' @
     u ''Chrome/120.0.0.0 Safari/537.36''"

definition DEFAULT_BASE_URL :: str where
  "DEFAULT_BASE_URL = u ''https://panel.freecloud.ltd''"

definition browser_headers :: "str \<Rightarrow> (str \<times> str) list" where
  "browser_headers referer =
    [(u ''User-Agent'', USER_AGENT),
     (u ''Accept'',
      u ''text/html,application/xhtml+xml,application/xml;q=0.9,image/avif,image/webp,*/*;q=0.8''),
     (u ''Accept-Language'', u ''en-US,en;q=0.9,zh-CN;q=0.8,zh;q=0.7''),
     (u ''Referer'', referer),
     (u ''Connection'', u ''keep-alive'')]"

text \<open>\<open>http_request(session, "GET", url, headers=headers)\<close> and the form POST.\<close>

definition get_page :: "'w env \<Rightarrow> str \<Rightarrow> (str \<times> str) list \<Rightarrow> 'w \<Rightarrow> (exn + response) \<times> 'w" where
  "get_page env url hs w =
     http_request env (u ''GET'') url retries_default
       \<lparr>headers = hs, data = None, allow_redirects = None\<rparr> w"

definition post_form ::
  "'w env \<Rightarrow> str \<Rightarrow> (str \<times> str) list \<Rightarrow> (str \<times> str) list \<Rightarrow> 'w \<Rightarrow> (exn + response) \<times> 'w"
where
  "post_form env url hs payload w =
     http_request env (u ''POST'') url retries_default
       \<lparr>headers = hs @ [(u ''Content-Type'', u ''application/x-www-form-urlencoded'')],
        data = Some payload, allow_redirects = Some True\<rparr> w"

text \<open>
  The loop over the forms (lines 176 to 183): the first form, in document order, whose
  non-empty \<open>action\<close> matches \<open>/login\<close> or which holds an input named \<open>username\<close> and
  one named \<open>password\<close>.
\<close>

definition login_action :: regex where
  "login_action = [word ''/login'']"

definition action_has_login :: "node \<Rightarrow> bool" where
  "action_has_login f =
     (case tag_get f (u ''action'') of
        None \<Rightarrow> False
      | Some a \<Rightarrow> a \<noteq> [] \<and> matches login_action a re_I)"

definition has_credential_inputs :: "node \<Rightarrow> bool" where
  "has_credential_inputs f =
     (find_attr (children f) (u ''input'') (u ''name'') (u ''username'') \<noteq> None \<and>
      find_attr (children f) (u ''input'') (u ''name'') (u ''password'') \<noteq> None)"

fun find_login_form :: "node list \<Rightarrow> node option" where
  "find_login_form [] = None"
| "find_login_form (f # fs) =
     (if action_has_login f then Some f
      else if has_credential_inputs f then Some f
      else find_login_form fs)"

text \<open>
  The POST target (lines 169 to 187): the login URL unless the parser is there, does
  not raise, the chosen form has a non-empty \<open>action\<close> and \<open>urljoin\<close> resolves it; an
  exception of \<open>urljoin\<close> is caught with those of the parser.
\<close>

definition login_post_url :: "'w env \<Rightarrow> str \<Rightarrow> str \<Rightarrow> str \<Rightarrow> str" where
  "login_post_url env base_url login_url text =
     (if HAVE_BS4 env then
        (case BeautifulSoup env text of
           Inl e \<Rightarrow> login_url
         | Inr soup \<Rightarrow>
             (case find_login_form (find_all soup [u ''form'']) of
                None \<Rightarrow> login_url
              | Some form \<Rightarrow>
                  (case tag_get form (u ''action'') of
                     None \<Rightarrow> login_url
                   | Some a \<Rightarrow>
                       if a \<noteq> [] then
                         (case urljoin env base_url a of
                            Inl e \<Rightarrow> login_url
                          | Inr url \<Rightarrow> url)
                       else login_url)))
      else login_url)"

definition login_payload :: "'w env \<Rightarrow> str \<Rightarrow> str \<Rightarrow> str \<Rightarrow> (str \<times> str) list" where
  "login_payload env email password text =
     [(u ''username'', email), (u ''password'', password), (u ''rememberme'', u ''on'')] @
     (case extract_csrf_token_from_html env text of
        None \<Rightarrow> []
      | Some token \<Rightarrow> if token \<noteq> [] then [(u ''token'', token)] else [])"

definition failure_patterns :: "piece list list" where
  "failure_patterns =
    [word ''Login Details Incorrect'',
     word ''Invalid'' @ [P Space Plus] @ word ''Login'',
     lits [0x767B, 0x5F55, 0x5931, 0x8D25],
     lits [0x90AE, 0x7BB1, 0x6216, 0x5BC6, 0x7801, 0x9519, 0x8BEF],
     word ''Email Address or Password'',
     word ''sign in was incorrect'']"

definition logged_in_indicators :: "piece list list" where
  "logged_in_indicators =
    [word ''Logout'',
     lits [0x9000, 0x51FA],
     word ''Client Area'',
     lits [0x5BA2, 0x6237, 0x4E2D, 0x5FC3],
     lits [0x6211, 0x7684, 0x8D44, 0x6599],
     lits [0x670D, 0x52A1]]"

definition any_match :: "piece list list \<Rightarrow> str \<Rightarrow> bool" where
  "any_match ps text = list_ex (\<lambda>p. matches [p] text re_I) ps"

definition login_url_of :: "'w env \<Rightarrow> str \<Rightarrow> exn + str" where
  "login_url_of env base_url = urljoin env base_url (u ''/index.php?rp=/login'')"

definition clientarea_url :: "'w env \<Rightarrow> str \<Rightarrow> exn + str" where
  "clientarea_url env base_url = urljoin env base_url (u ''/clientarea.php'')"

text \<open>
  The confirmation fetch and its verdict (lines 214 to 233). An exception of
  \<open>urljoin\<close> or of \<open>http_request\<close> leaves \<open>login_whmcs\<close> as it is raised.
\<close>

definition confirm_login :: "'w env \<Rightarrow> str \<Rightarrow> 'w \<Rightarrow> (exn + outcome) \<times> 'w" where
  "confirm_login env base_url w =
     (case clientarea_url env base_url of
        Inl e \<Rightarrow> (Inl e, w)
      | Inr ca_url \<Rightarrow>
     (case get_page env ca_url (browser_headers base_url) w of
        (Inl e, w') \<Rightarrow> (Inl e, w')
      | (Inr ca, w') \<Rightarrow>
          if is_2fa_or_human_challenge (resp_text ca) (resp_url ca) then
            (Inr (TWO_FA, JStr (u ''2FA or human verification detected in client area'')), w')
          else if any_match logged_in_indicators (resp_text ca) then
            (Inr (SUCCESS, JStr (u ''Logged in'')), w')
          else (Inr (FAILED, JStr (u ''Unable to confirm login'')), w')))"

text \<open>The submission and its verdict (lines 189 to 212).\<close>

definition submit_login ::
  "'w env \<Rightarrow> str \<Rightarrow> str \<Rightarrow> (str \<times> str) list \<Rightarrow> 'w \<Rightarrow> (exn + outcome) \<times> 'w" where
  "submit_login env base_url post_url payload w =
     (case post_form env post_url (browser_headers base_url) payload w of
        (Inl e, w') \<Rightarrow> (Inl e, w')
      | (Inr resp, w') \<Rightarrow>
          if is_2fa_or_human_challenge (resp_text resp) (resp_url resp) then
            (Inr (TWO_FA, JStr (u ''2FA or human verification challenge detected after login'')),
             w')
          else if any_match failure_patterns (resp_text resp) then
            (Inr (FAILED, JStr (u ''Invalid credentials or login failed'')), w')
          else confirm_login env base_url w')"

definition login_whmcs :: "'w env \<Rightarrow> str \<Rightarrow> str \<Rightarrow> str \<Rightarrow> 'w \<Rightarrow> (exn + outcome) \<times> 'w" where
  "login_whmcs env base_url email password w =
     (case login_url_of env base_url of
        Inl e \<Rightarrow> (Inl e, w)
      | Inr login_url \<Rightarrow>
     (case get_page env login_url (browser_headers base_url) w of
        (Inl e, w') \<Rightarrow> (Inl e, w')
      | (Inr resp, w') \<Rightarrow>
          if is_2fa_or_human_challenge (resp_text resp) (resp_url resp) then
            (Inr (TWO_FA, JStr (u ''2FA or human verification detected on login page'')), w')
          else
            submit_login env base_url
              (login_post_url env base_url login_url (resp_text resp))
              (login_payload env email password (resp_text resp)) w'))"

section \<open>\<open>_find_checkin_action_in_html\<close>: action discovery\<close>

text \<open>
  The action dict: \<open>method\<close>, \<open>url\<close> and, for a form, \<open>data\<close> (\<open>None\<close>: no such key).
\<close>

record action =
  act_method :: str
  act_url :: str
  act_data :: "(str \<times> str) list option"

definition qiandao :: str where
  "qiandao = [0x7B7E, 0x5230]"

text \<open>
  The links and buttons (lines 246 to 251), in document order: one GET candidate for
  each hit. An exception of \<open>urljoin\<close> ends the loop.
\<close>

fun link_candidates :: "'w env \<Rightarrow> str \<Rightarrow> node list \<Rightarrow> exn + action list" where
  "link_candidates env base_url [] = Inr []"
| "link_candidates env base_url (a # tags) =
     (if matches [lits qiandao] (get_text [] a) no_flags then
        (case tag_get a (u ''href'') of
           None \<Rightarrow> link_candidates env base_url tags
         | Some href \<Rightarrow>
             if href \<noteq> [] then
               (case urljoin env base_url href of
                  Inl e \<Rightarrow> Inl e
                | Inr url \<Rightarrow>
                    (case link_candidates env base_url tags of
                       Inl e \<Rightarrow> Inl e
                     | Inr cs \<Rightarrow>
                         Inr (\<lparr>act_method = u ''GET'', act_url = url, act_data = None\<rparr> # cs)))
             else link_candidates env base_url tags)
      else link_candidates env base_url tags)"

text \<open>
  The payload of a form (lines 260 to 266): \<open>payload[name] = val\<close> for every input with
  a non-empty name, a later input overwriting an earlier one of the same name.
\<close>

fun form_payload :: "node list \<Rightarrow> (str \<times> str) list \<Rightarrow> (str \<times> str) list" where
  "form_payload [] payload = payload"
| "form_payload (inp # inps) payload =
     (case tag_get inp (u ''name'') of
        None \<Rightarrow> form_payload inps payload
      | Some name \<Rightarrow>
          if name = [] then form_payload inps payload
          else form_payload inps
                 (AList.update name (case tag_get inp (u ''value'') of None \<Rightarrow> [] | Some v \<Rightarrow> v)
                    payload))"

definition or_default :: "str option \<Rightarrow> str \<Rightarrow> str" where
  "or_default v d = (case v of None \<Rightarrow> d | Some s \<Rightarrow> if s \<noteq> [] then s else d)"

text \<open>
  The forms (lines 253 to 267), in document order. An exception of \<open>urljoin\<close> ends the
  loop; a form whose resolved action is empty gives no candidate.
\<close>

fun form_candidates :: "'w env \<Rightarrow> str \<Rightarrow> node list \<Rightarrow> exn + action list" where
  "form_candidates env base_url [] = Inr []"
| "form_candidates env base_url (form # forms) =
     (if matches [lits qiandao] (get_text (u '' '') form) no_flags then
        (let action = or_default (tag_get form (u ''action'')) [];
             method = str_upper env (or_default (tag_get form (u ''method'')) (u ''POST''))
         in if action \<noteq> [] then
              (case urljoin env base_url action of
                 Inl e \<Rightarrow> Inl e
               | Inr action_url \<Rightarrow>
                   (case form_candidates env base_url forms of
                      Inl e \<Rightarrow> Inl e
                    | Inr cs \<Rightarrow>
                        if action_url \<noteq> [] then
                          Inr (\<lparr>act_method = method, act_url = action_url,
                                act_data = Some (form_payload
                                  (find_all (children form) [u ''input'']) [])\<rparr> # cs)
                        else Inr cs))
            else form_candidates env base_url forms)
      else form_candidates env base_url forms)"

text \<open>
  The structured path (lines 242 to 271): the first candidate, links before forms;
  nothing when the parser or \<open>urljoin\<close> raises, or when there is no candidate.
\<close>

definition bs4_action :: "'w env \<Rightarrow> str \<Rightarrow> str \<Rightarrow> action option" where
  "bs4_action env base_url html =
     (case BeautifulSoup env html of
        Inl e \<Rightarrow> None
      | Inr soup \<Rightarrow>
          (case link_candidates env base_url (find_all soup [u ''a'', u ''button'']) of
             Inl e \<Rightarrow> None
           | Inr links \<Rightarrow>
               (case form_candidates env base_url (find_all soup [u ''form'']) of
                  Inl e \<Rightarrow> None
                | Inr forms \<Rightarrow>
                    (case links @ forms of
                       [] \<Rightarrow> None
                     | c # cs \<Rightarrow> Some c))))"

text \<open>
  The fallback patterns, searched with \<open>re.I | re.S\<close>:
  \<^verbatim>\<open><a[^>]+href="([^"]+)"[^>]*>[^<]*QD[^<]*</a>\<close> and
  \<^verbatim>\<open><form[^>]+action="([^"]+)"[^>]*>(?:(?!</form>).)*QD(?:(?!</form>).)*</form>\<close>,
  with the two characters of the check-in word for \<open>QD\<close>.
\<close>

definition anchor_regex :: regex where
  "anchor_regex =
    [word ''<a'' @ [P (NoneOf [0x3E]) Plus] @ word ''href=\"'' @
     [GOpen, P (NoneOf [0x22]) Plus, GClose, P (Lit 0x22) One, P (NoneOf [0x3E]) Star,
      P (Lit 0x3E) One, P (NoneOf [0x3C]) Star] @ lits qiandao @
     [P (NoneOf [0x3C]) Star] @ word ''</a>'']"

definition form_regex :: regex where
  "form_regex =
    [word ''<form'' @ [P (NoneOf [0x3E]) Plus] @ word ''action=\"'' @
     [GOpen, P (NoneOf [0x22]) Plus, GClose, P (Lit 0x22) One, P (NoneOf [0x3E]) Star,
      P (Lit 0x3E) One, P (NotAhead (u ''</form>'') Dot) Star] @ lits qiandao @
     [P (NotAhead (u ''</form>'') Dot) Star] @ word ''</form>'']"

text \<open>
  The regex fallbacks are outside the \<open>try\<close>: an exception of \<open>urljoin\<close> there leaves
  the function.
\<close>

definition find_checkin_action_in_html ::
  "'w env \<Rightarrow> str \<Rightarrow> str \<Rightarrow> exn + action option" where
  "find_checkin_action_in_html env base_url html =
     (if html = [] then Inr None
      else
        (case (if HAVE_BS4 env then bs4_action env base_url html else None) of
           Some c \<Rightarrow> Inr (Some c)
         | None \<Rightarrow>
             (case re_search anchor_regex html re_I_S of
                Some (Some href) \<Rightarrow>
                  (case urljoin env base_url href of
                     Inl e \<Rightarrow> Inl e
                   | Inr url \<Rightarrow>
                       Inr (Some \<lparr>act_method = u ''GET'', act_url = url, act_data = None\<rparr>))
              | _ \<Rightarrow>
                  (case re_search form_regex html re_I_S of
                     Some (Some act) \<Rightarrow>
                       (case urljoin env base_url act of
                          Inl e \<Rightarrow> Inl e
                        | Inr action_url \<Rightarrow>
                            Inr (Some \<lparr>act_method = u ''POST'', act_url = action_url,
                              act_data = Some
                                (case extract_csrf_token_from_html env html of
                                   None \<Rightarrow> []
                                 | Some token \<Rightarrow>
                                     if token \<noteq> [] then [(u ''token'', token)] else [])\<rparr>))
                   | _ \<Rightarrow> Inr None))))"

text \<open>\<open>s.startswith(p)\<close>.\<close>

fun is_prefix :: "str \<Rightarrow> str \<Rightarrow> bool" where
  "is_prefix [] s = True"
| "is_prefix (p # ps) [] = False"
| "is_prefix (p # ps) (c # cs) = (p = c \<and> is_prefix ps cs)"

section \<open>\<open>perform_checkin\<close>: the check-in executor\<close>

definition probe_paths :: "str list" where
  "probe_paths =
    [u ''/clientarea.php?action=qiandao'',
     u ''/clientarea.php?action=checkin'',
     u ''/index.php?m=checkin'',
     u ''/index.php?m=signin'',
     u ''/index.php?rp=/checkin'',
     u ''/index.php?rp=/signin'']"

text \<open>The relevance pattern of the probe, with \<open>check-?in\<close> as its last alternative.\<close>

definition probe_regex :: regex where
  "probe_regex =
    [lits qiandao,
     lits (0x5DF2 # qiandao),
     lits [0x6210, 0x529F],
     lits [0x79EF, 0x5206],
     word ''check'' @ [P (Lit 0x2D) Opt] @ word ''in'']"

text \<open>
  The probing loop (lines 319 to 327): the first path answered with status 200 and a
  relevant body; an exception of \<open>http_request\<close> moves on to the next path, an
  exception of \<open>urljoin\<close> (line 320, before the \<open>try\<close>) leaves \<open>perform_checkin\<close>.
\<close>

fun probe ::
  "'w env \<Rightarrow> str \<Rightarrow> (str \<times> str) list \<Rightarrow> str list \<Rightarrow> 'w \<Rightarrow> (exn + action option) \<times> 'w"
where
  "probe env base_url hs [] w = (Inr None, w)"
| "probe env base_url hs (path # paths) w =
     (case urljoin env base_url path of
        Inl e \<Rightarrow> (Inl e, w)
      | Inr test_url \<Rightarrow>
     (case get_page env test_url hs w of
        (Inl e, w') \<Rightarrow> probe env base_url hs paths w'
      | (Inr resp, w') \<Rightarrow>
          if status_code resp = 200 \<and> matches probe_regex (resp_text resp) re_I then
            (Inr (Some \<lparr>act_method = u ''GET'', act_url = test_url, act_data = None\<rparr>), w')
          else probe env base_url hs paths w'))"

text \<open>\<open>x or y\<close> on Python objects, and \<open>j.get(key)\<close> on a dict.\<close>

definition py_or :: "json \<Rightarrow> json \<Rightarrow> json" where
  "py_or x y = (if truthy x then x else y)"

definition dict_get :: "(str \<times> json) list \<Rightarrow> str \<Rightarrow> json" where
  "dict_get kvs key = (case map_of kvs key of None \<Rightarrow> JNull | Some v \<Rightarrow> v)"

definition already_json :: regex where
  "already_json = [lits (0x5DF2 # qiandao), word ''already'', lits [0x91CD, 0x590D]]"

definition success_json :: regex where
  "success_json = [lits [0x6210, 0x529F], word ''success'', word ''ok'']"

definition already_html :: regex where
  "already_html = [lits ([0x4ECA, 0x65E5, 0x5DF2] @ qiandao), lits (0x5DF2 # qiandao), word ''already'']"

definition success_html :: regex where
  "success_html = [lits (qiandao @ [0x6210, 0x529F]), lits [0x6210, 0x529F], word ''success'']"

text \<open>
  The JSON case (lines 363 to 374) for the object \<open>resp.json()\<close> returned: \<open>None\<close> when
  the block returns nothing, also when \<open>j.get\<close> raises because \<open>j\<close> is no dict.
\<close>

definition json_case :: "json \<Rightarrow> outcome option" where
  "json_case j =
     (case j of
        JObj kvs \<Rightarrow>
          (let msg = py_or (dict_get kvs (u ''message''))
                       (py_or (dict_get kvs (u ''msg''))
                          (py_or (dict_get kvs (u ''status'')) (JStr [])));
               by_msg = (case msg of
                           JStr s \<Rightarrow>
                             if matches already_json s re_I then Some (ALREADY, msg)
                             else if matches success_json s re_I then Some (SUCCESS, msg)
                             else None
                         | _ \<Rightarrow> None)
           in case by_msg of
                Some r \<Rightarrow> Some r
              | None \<Rightarrow>
                  if list_ex (\<lambda>k. case map_of kvs k of None \<Rightarrow> False | Some v \<Rightarrow> truthy v)
                       [u ''success'', u ''ok'', u ''result'']
                  then Some (SUCCESS, py_or msg (JStr (u ''OK'')))
                  else None)
      | _ \<Rightarrow> None)"

text \<open>Is the answer JSON-typed (line 361)?\<close>

definition maybe_json :: "'w env \<Rightarrow> response \<Rightarrow> bool" where
  "maybe_json env resp =
     is_prefix (u ''application/json'')
       (str_lower env (case content_type resp of None \<Rightarrow> [] | Some c \<Rightarrow> c))"

text \<open>The HTML case (lines 378 to 386).\<close>

definition html_case :: "response \<Rightarrow> outcome" where
  "html_case resp =
     (if matches already_html (resp_text resp) re_I then
        (ALREADY, JStr (u ''Already checked in today''))
      else if matches success_html (resp_text resp) re_I then
        (SUCCESS, JStr (u ''Check-in success''))
      else if is_2fa_or_human_challenge (resp_text resp) (resp_url resp) then
        (TWO_FA, JStr (u ''2FA or human verification encountered during check-in''))
      else (FAILED, JStr (u ''Unable to determine check-in result'')))"

text \<open>
  The verdict on the answer (lines 357 to 386): the JSON case where the answer is
  JSON-typed, \<open>json()\<close> does not raise and the block returns; the HTML case otherwise.
\<close>

definition checkin_result :: "'w env \<Rightarrow> response \<Rightarrow> outcome" where
  "checkin_result env resp =
     (case (if maybe_json env resp then
              (case resp_json resp of Inl e \<Rightarrow> None | Inr j \<Rightarrow> json_case j)
            else None) of
        Some r \<Rightarrow> r
      | None \<Rightarrow> html_case resp)"

text \<open>
  Carrying the action out (lines 332 to 355): a POST gets the token of the dashboard
  page when its data has none.
\<close>

definition do_action ::
  "'w env \<Rightarrow> (str \<times> str) list \<Rightarrow> str \<Rightarrow> action \<Rightarrow> 'w \<Rightarrow> (exn + outcome) \<times> 'w" where
  "do_action env hs ca_text act w =
     (let method = str_upper env (act_method act);
          url = act_url act;
          dat = (case act_data act of None \<Rightarrow> [] | Some d \<Rightarrow> d)
      in if url = [] then (Inr (FAILED, JStr (u ''Check-in action URL missing'')), w)
         else
           (case (if method = u ''POST'' then
                    post_form env url hs
                      (if u ''token'' \<in> fst ` set dat then dat
                       else (case extract_csrf_token_from_html env ca_text of
                               None \<Rightarrow> dat
                             | Some token \<Rightarrow>
                                 if token \<noteq> [] then AList.update (u ''token'') token dat
                                 else dat)) w
                  else
                    http_request env (u ''GET'') url retries_default
                      \<lparr>headers = hs, data = None, allow_redirects = Some True\<rparr> w) of
              (Inl e, w') \<Rightarrow> (Inl e, w')
            | (Inr resp, w') \<Rightarrow> (Inr (checkin_result env resp), w')))"

definition perform_checkin :: "'w env \<Rightarrow> str \<Rightarrow> 'w \<Rightarrow> (exn + outcome) \<times> 'w" where
  "perform_checkin env base_url w =
     (case clientarea_url env base_url of
        Inl e \<Rightarrow> (Inl e, w)
      | Inr ca_url \<Rightarrow>
     (let hs = browser_headers ca_url in
      case get_page env ca_url hs w of
        (Inl e, w1) \<Rightarrow> (Inl e, w1)
      | (Inr ca, w1) \<Rightarrow>
          (case find_checkin_action_in_html env base_url (resp_text ca) of
             Inl e \<Rightarrow> (Inl e, w1)
           | Inr (Some act) \<Rightarrow> do_action env hs (resp_text ca) act w1
           | Inr None \<Rightarrow>
               (case probe env base_url hs probe_paths w1 of
                  (Inl e, w2) \<Rightarrow> (Inl e, w2)
                | (Inr None, w2) \<Rightarrow> (Inr (FAILED, JStr (u ''Check-in entry not found'')), w2)
                | (Inr (Some act), w2) \<Rightarrow> do_action env hs (resp_text ca) act w2))))"

section \<open>\<open>main\<close>: the run orchestrator\<close>

text \<open>The name Python prints for the type of such an object.\<close>

fun type_name :: "json \<Rightarrow> string" where
  "type_name JNull = ''NoneType''"
| "type_name (JBool b) = ''bool''"
| "type_name (JInt i) = ''int''"
| "type_name (JFloat nz) = ''float''"
| "type_name (JStr s) = ''str''"
| "type_name (JArr xs) = ''list''"
| "type_name (JObj kvs) = ''dict''"

text \<open>\<open>AttributeError: 'T' object has no attribute 'name'\<close>, for \<open>v.name\<close>.\<close>

definition attribute_error :: "json \<Rightarrow> string \<Rightarrow> exn" where
  "attribute_error v name =
     Exn (u ''AttributeError'')
       (u ([CHR 0x27] @ type_name v @ [CHR 0x27] @ '' object has no attribute '' @
           [CHR 0x27] @ name @ [CHR 0x27]))"

text \<open>\<open>account.get(key)\<close>: an account that is no dict has no \<open>get\<close>.\<close>

definition account_get :: "json \<Rightarrow> str \<Rightarrow> exn + json" where
  "account_get account key =
     (case account of
        JObj kvs \<Rightarrow> Inr (dict_get kvs key)
      | _ \<Rightarrow> Inl (attribute_error account ''get''))"

text \<open>
  \<open>(account.get(key) or default).strip()\<close>: a true value that is no \<open>str\<close> has no
  \<open>strip\<close>.
\<close>

definition stripped_field :: "json \<Rightarrow> str \<Rightarrow> str \<Rightarrow> exn + str" where
  "stripped_field account key dflt =
     (case account_get account key of
        Inl e \<Rightarrow> Inl e
      | Inr v \<Rightarrow>
          if truthy v then
            (case v of JStr s \<Rightarrow> Inr (str_strip s) | _ \<Rightarrow> Inl (attribute_error v ''strip''))
          else Inr (str_strip dflt))"

text \<open>
  \<open>mask_email\<close>: \<open>"***"\<close> when there is no \<open>@\<close> (the \<open>ValueError\<close> of the unpacking is
  caught); \<open>local[0]\<close> raises \<open>IndexError\<close> when the part before the first \<open>@\<close> is
  empty.
\<close>

definition mask_email :: "str \<Rightarrow> exn + str" where
  "mask_email email =
     (if 0x40 \<notin> set email then Inr (u ''***'')
      else
        (let local = takeWhile (\<lambda>c. c \<noteq> 0x40) email;
             domain = tl (dropWhile (\<lambda>c. c \<noteq> 0x40) email)
         in case local of
              [] \<Rightarrow> Inl (Exn (u ''IndexError'') (u ''string index out of range''))
            | c # cs \<Rightarrow>
                if length local \<le> 2 then
                  Inr ((c # replicate (length local - 1) 0x2A) @ [0x40] @ domain)
                else
                  Inr ((c # replicate (length local - 2) 0x2A) @ [last local] @ [0x40] @ domain)))"

definition safe_label :: "json \<Rightarrow> exn + str" where
  "safe_label account =
     (case stripped_field account (u ''label'') [] of
        Inl e \<Rightarrow> Inl e
      | Inr label \<Rightarrow>
          if label \<noteq> [] then Inr label
          else
            (case stripped_field account (u ''email'') [] of
               Inl e \<Rightarrow> Inl e
             | Inr email \<Rightarrow> if email \<noteq> [] then mask_email email else Inr (u ''(no-label)'')))"

text \<open>
  Lines 440 to 480 for one account with credentials: a new session, the login, and the
  check-in after a login with status \<open>SUCCESS\<close> only. The exceptions of the two calls
  are caught and recorded.
\<close>

definition login_and_checkin :: "'w env \<Rightarrow> str \<Rightarrow> str \<Rightarrow> str \<Rightarrow> str \<Rightarrow> 'w \<Rightarrow> result \<times> 'w" where
  "login_and_checkin env label base_url email password w =
     (case login_whmcs env base_url email password (Session_new env w) of
        (Inl e, w1) \<Rightarrow> ((FAILED, label, JStr (u ''Login error: '' @ exn_msg e)), w1)
      | (Inr (status, detail), w1) \<Rightarrow>
          if status = TWO_FA then ((TWO_FA, label, detail), w1)
          else if status \<noteq> SUCCESS then ((FAILED, label, detail), w1)
          else
            (case perform_checkin env base_url w1 of
               (Inl e, w2) \<Rightarrow> ((FAILED, label, JStr (u ''Check-in error: '' @ exn_msg e)), w2)
             | (Inr (status2, detail2), w2) \<Rightarrow> ((status2, label, detail2), w2)))"

text \<open>
  The body of the loop over the accounts (lines 426 to 483). The left result is an
  exception that nothing catches: it ends \<open>main\<close>.
\<close>

definition process_account :: "'w env \<Rightarrow> str \<Rightarrow> json \<Rightarrow> 'w \<Rightarrow> (exn + result) \<times> 'w" where
  "process_account env tg_default_chat account w =
     (case safe_label account of
        Inl e \<Rightarrow> (Inl e, w)
      | Inr label \<Rightarrow>
     (case stripped_field account (u ''email'') [] of
        Inl e \<Rightarrow> (Inl e, w)
      | Inr email \<Rightarrow>
     (case stripped_field account (u ''password'') [] of
        Inl e \<Rightarrow> (Inl e, w)
      | Inr password \<Rightarrow>
     (case stripped_field account (u ''base_url'') DEFAULT_BASE_URL of
        Inl e \<Rightarrow> (Inl e, w)
      | Inr base \<Rightarrow>
     (case stripped_field account (u ''tg_chat_id'') tg_default_chat of
        Inl e \<Rightarrow> (Inl e, w)
      | Inr chat_id \<Rightarrow>
          if email = [] \<or> password = [] then
            (Inr (FAILED, label, JStr (u ''Missing credentials'')), w)
          else
            (case login_and_checkin env label (str_rstrip [0x2F] base) email password w of
               (r, w') \<Rightarrow> (Inr r, w')))))))"

fun run_accounts ::
  "'w env \<Rightarrow> str \<Rightarrow> json list \<Rightarrow> result list \<Rightarrow> 'w \<Rightarrow> (exn + result list) \<times> 'w" where
  "run_accounts env tg_default_chat [] results w = (Inr results, w)"
| "run_accounts env tg_default_chat (account # accounts) results w =
     (case process_account env tg_default_chat account w of
        (Inl e, w') \<Rightarrow> (Inl e, w')
      | (Inr r, w') \<Rightarrow> run_accounts env tg_default_chat accounts (results @ [r]) w')"

text \<open>The exit code policy (lines 516 to 521).\<close>

definition exit_code :: "result list \<Rightarrow> int" where
  "exit_code results =
     (let total_accounts = length results;
          hard_failures = length (filter (\<lambda>r. fst r = FAILED) results)
      in if hard_failures = total_accounts \<and> total_accounts > 0 then 1 else 0)"

text \<open>\<open>os.getenv(a) or os.getenv(b) or ""\<close>.\<close>

definition getenv_or :: "(str \<Rightarrow> str option) \<Rightarrow> str \<Rightarrow> str \<Rightarrow> str" where
  "getenv_or environ a b = or_default (environ a) (or_default (environ b) [])"

text \<open>
  \<open>main\<close>, from the environment variables: the exit code it returns, or the exception
  that leaves it.
\<close>

definition main :: "'w env \<Rightarrow> (str \<Rightarrow> str option) \<Rightarrow> 'w \<Rightarrow> (exn + int) \<times> 'w" where
  "main env environ w =
     (case environ (u ''ACCOUNTS'') of
        None \<Rightarrow> (Inr 0, w)
      | Some raw_accounts \<Rightarrow>
          if raw_accounts = [] then (Inr 0, w)
          else
            (case json_loads env raw_accounts of
               Inl e \<Rightarrow> (Inr 1, w)
             | Inr (JArr accounts) \<Rightarrow>
                 (case run_accounts env
                         (getenv_or environ (u ''TG_CHAT_ID'') (u ''TELEGRAM_CHAT_ID''))
                         accounts [] w of
                    (Inl e, w') \<Rightarrow> (Inl e, w')
                  | (Inr results, w') \<Rightarrow> (Inr (exit_code results), report env results w'))
             | Inr _ \<Rightarrow> (Inr 1, w)))"

text \<open>
  \<open>sys.exit(main())\<close>: the exit status of the process is the code \<open>main\<close> returns, and 1
  when an exception leaves \<open>main\<close>.
\<close>

definition exit_status :: "exn + int \<Rightarrow> int" where
  "exit_status r = (case r of Inl e \<Rightarrow> 1 | Inr code \<Rightarrow> code)"

section \<open>Notions used in the properties\<close>

text \<open>A sequence of pieces without the parentheses of the group.\<close>

definition no_group :: "piece list \<Rightarrow> bool" where
  "no_group ps = list_all (\<lambda>p. p \<noteq> GOpen \<and> p \<noteq> GClose) ps"


text \<open>A parser stub that answers every page with the same soup.\<close>

definition parsed :: "node list \<Rightarrow> str \<Rightarrow> exn + node list" where
  "parsed soup html = Inr soup"

text \<open>
  Two sample forms: one that posts to \<open>/auth.php\<close> and holds the inputs \<open>username\<close>
  and \<open>password\<close>, and one whose action is \<open>/login\<close> and that holds no input.
\<close>

definition credentials_form :: node where
  "credentials_form =
     Tag (u ''form'') [(u ''action'', u ''/auth.php'')]
       [Tag (u ''input'') [(u ''name'', u ''username'')] [],
        Tag (u ''input'') [(u ''name'', u ''password'')] []]"

definition login_form :: node where
  "login_form = Tag (u ''form'') [(u ''action'', u ''/login'')] []"

text \<open>
  A \<open>json.loads\<close> stub that answers with a given object, and the environment in which
  only \<open>ACCOUNTS\<close> is set.
\<close>

definition loads_as :: "json \<Rightarrow> str \<Rightarrow> exn + json" where
  "loads_as j s = Inr j"

definition only_accounts :: "str \<Rightarrow> str \<Rightarrow> str option" where
  "only_accounts raw name = (if name = u ''ACCOUNTS'' then Some raw else None)"

text \<open>
  Two account records, both without a label: one with the email \<open>ab@c\<close> and one with
  the email \<open>@c\<close>, whose part before the \<open>@\<close> is empty.
\<close>

definition account_ab :: json where
  "account_ab = JObj [(u ''email'', JStr (u ''ab@c'')), (u ''password'', JStr (u ''p''))]"

definition account_at :: json where
  "account_at = JObj [(u ''email'', JStr (u ''@c'')), (u ''password'', JStr (u ''p''))]"

definition account_at_no_password :: json where
  "account_at_no_password = JObj [(u ''email'', JStr (u ''@c''))]"

text \<open>The same collaborators with a \<open>urljoin\<close> that raises on every call.\<close>

definition broken_urljoin :: "'w env \<Rightarrow> 'w env" where
  "broken_urljoin env =
     env\<lparr>urljoin := (\<lambda>base ref. Inl (Exn (u ''ValueError'') (u ''Invalid IPv6 URL'')))\<rparr>"

section \<open>Properties\<close>

subsection \<open>The transport\<close>

lemma loop_fail:
  "Session_request env req w = (r, w') \<Longrightarrow> attempt_fails r \<Longrightarrow>
   http_request_loop env req (Suc n) last_exc w =
     (if n = 0 then (Inl (attempt_error r), w')
      else http_request_loop env req n (Some (attempt_error r)) w')"
  by (cases r) (auto simp: attempt_fails_def attempt_error_def)

lemma loop_ok:
  "Session_request env req w = (Inr resp, w') \<Longrightarrow> status_code resp < 500 \<Longrightarrow>
   http_request_loop env req (Suc n) last_exc w = (Inr resp, w')"
  by auto

text \<open>
  Claim C6. With the default of three attempts, \<open>http_request\<close> returns a response
  with a status below 500 (a 4xx included) on the attempt that yields it, be it the
  first, the second or the third, and sends no further request: the world it returns is
  the world after that attempt. An attempt fails when the session raises or answers
  with a status of 500 or more; after two failed attempts and a good third one the good
  response is returned, and after three failed attempts the exception of the third is
  raised.
\<close>

theorem http_request_three_attempts:
  "(Session_request env (session_call m url kw) w0 = (Inr resp, w1) \<and> status_code resp < 500
      \<longrightarrow> http_request env m url 3 kw w0 = (Inr resp, w1)) \<and>
   (Session_request env (session_call m url kw) w0 = (r1, w1) \<and> attempt_fails r1 \<and>
    Session_request env (session_call m url kw) w1 = (Inr resp, w2) \<and> status_code resp < 500
      \<longrightarrow> http_request env m url 3 kw w0 = (Inr resp, w2)) \<and>
   (Session_request env (session_call m url kw) w0 = (r1, w1) \<and> attempt_fails r1 \<and>
    Session_request env (session_call m url kw) w1 = (r2, w2) \<and> attempt_fails r2 \<and>
    Session_request env (session_call m url kw) w2 = (Inr resp, w3) \<and> status_code resp < 500
      \<longrightarrow> http_request env m url 3 kw w0 = (Inr resp, w3)) \<and>
   (Session_request env (session_call m url kw) w0 = (r1, w1) \<and> attempt_fails r1 \<and>
    Session_request env (session_call m url kw) w1 = (r2, w2) \<and> attempt_fails r2 \<and>
    Session_request env (session_call m url kw) w2 = (r3, w3) \<and> attempt_fails r3
      \<longrightarrow> http_request env m url 3 kw w0 = (Inl (attempt_error r3), w3))"
  unfolding http_request_def numeral_3_eq_3
  by (simp add: loop_fail loop_ok del: http_request_loop.simps)

text \<open>
  Three mocked runs: 500, 500, 200 gives the 200 after three requests; 404 is returned
  after one request; 500, a timeout and 503 raise the server error of the 503 and leave
  the fourth scripted reply unread.
\<close>

theorem http_request_three_attempts_witness:
  "http_request (mock_env False no_parser no_loads) (u ''GET'') (u ''/'') 3 get_kw
     ([Inr (page 500 [] []), Inr (page 500 [] []), Inr (page 200 (u ''ok'') [])], []) =
   (Inr (page 200 (u ''ok'') []),
    ([], replicate 3 (session_call (u ''GET'') (u ''/'') get_kw))) \<and>
   http_request (mock_env False no_parser no_loads) (u ''GET'') (u ''/'') 3 get_kw
     ([Inr (page 404 [] []), Inr (page 200 [] [])], []) =
   (Inr (page 404 [] []),
    ([Inr (page 200 [] [])], [session_call (u ''GET'') (u ''/'') get_kw])) \<and>
   http_request (mock_env False no_parser no_loads) (u ''GET'') (u ''/'') 3 get_kw
     ([Inr (page 500 [] []), Inl (Exn (u ''Timeout'') []), Inr (page 503 [] []),
       Inr (page 200 [] [])], []) =
   (Inl (server_error 503),
    ([Inr (page 200 [] [])], replicate 3 (session_call (u ''GET'') (u ''/'') get_kw)))"
  using http_request_three_attempts
      [of "mock_env False no_parser no_loads" "u ''GET''" "u ''/''" get_kw
          "([Inr (page 500 [] []), Inr (page 500 [] []), Inr (page 200 (u ''ok'') [])], [])"
          "page 200 (u ''ok'') []"
          "([Inr (page 500 [] []), Inr (page 200 (u ''ok'') [])],
            [session_call (u ''GET'') (u ''/'') get_kw])"
          "Inr (page 500 [] [])"
          "([Inr (page 200 (u ''ok'') [])], replicate 2 (session_call (u ''GET'') (u ''/'') get_kw))"
          "Inr (page 500 [] [])"
          "([], replicate 3 (session_call (u ''GET'') (u ''/'') get_kw))"]
    http_request_three_attempts
      [of "mock_env False no_parser no_loads" "u ''GET''" "u ''/''" get_kw
          "([Inr (page 404 [] []), Inr (page 200 [] [])], [])"
          "page 404 [] []"
          "([Inr (page 200 [] [])], [session_call (u ''GET'') (u ''/'') get_kw])"]
    http_request_three_attempts
      [of "mock_env False no_parser no_loads" "u ''GET''" "u ''/''" get_kw
          "([Inr (page 500 [] []), Inl (Exn (u ''Timeout'') []), Inr (page 503 [] []),
             Inr (page 200 [] [])], [])"
          _
          "([Inl (Exn (u ''Timeout'') []), Inr (page 503 [] []), Inr (page 200 [] [])],
            [session_call (u ''GET'') (u ''/'') get_kw])"
          "Inr (page 500 [] [])"
          "([Inr (page 503 [] []), Inr (page 200 [] [])],
            replicate 2 (session_call (u ''GET'') (u ''/'') get_kw))"
          "Inl (Exn (u ''Timeout'') [])"
          "([Inr (page 200 [] [])], replicate 3 (session_call (u ''GET'') (u ''/'') get_kw))"
          "Inr (page 503 [] [])"]
  by (simp add: mock_env_def mock_request_def attempt_fails_def attempt_error_def page_def
        numeral_2_eq_2 numeral_3_eq_3)

subsection \<open>The matcher\<close>

text \<open>The equations that evaluate a search on a concrete text.\<close>

lemmas re_eval = u_def word_def lits_def quotes_def re_I_def re_I_S_def no_flags_def lit_ok_def
  ci_match_def ascii_lower_def is_space_def Let_def matches_def




lemma no_group_lits: "no_group (lits w)"
  by (simp add: no_group_def lits_def list_all_iff)

lemma no_group_append: "no_group (xs @ ys) \<longleftrightarrow> no_group xs \<and> no_group ys"
  by (simp add: no_group_def)

lemma no_group_Cons: "no_group (p # ps) \<longleftrightarrow> p \<noteq> GOpen \<and> p \<noteq> GClose \<and> no_group ps"
  by (simp add: no_group_def)

lemma no_group_keeps_grp:
  "match_here fl ps s opn grp = Some (r, g) \<Longrightarrow> no_group ps \<Longrightarrow> g = grp"
  by (induction fl ps s opn grp rule: match_here.induct)
     (auto simp: no_group_Cons split: if_splits option.splits)

lemma star_close_group:
  "match_here fl (P a Star # GClose # ps) s (Some s0) grp = Some (r, g) \<Longrightarrow>
   no_group ps \<Longrightarrow> length s < length s0 \<Longrightarrow> \<exists>t. g = Some t \<and> t \<noteq> []"
proof (induction s)
  case Nil
  then have "g = Some (take (length s0) s0)"
    using no_group_keeps_grp [of fl ps "[]" "Some s0" _ r g] by simp
  with Nil show ?case by auto
next
  case (Cons c cs)
  show ?case
  proof (cases "atom_ok fl a c cs \<and> match_here fl (P a Star # GClose # ps) cs (Some s0) grp \<noteq> None")
    case True
    with Cons.prems have "match_here fl (P a Star # GClose # ps) cs (Some s0) grp = Some (r, g)"
      by (auto split: option.splits)
    with Cons show ?thesis by simp
  next
    case False
    with Cons.prems
    have "match_here fl ps (c # cs) (Some s0)
            (Some (take (length s0 - length (c # cs)) s0)) = Some (r, g)"
      by (auto split: option.splits if_splits)
    then have "g = Some (take (length s0 - length (c # cs)) s0)"
      using no_group_keeps_grp Cons.prems(2) by blast
    with Cons.prems(3) show ?thesis by auto
  qed
qed

lemma plus_group_nonempty:
  "match_here fl (GOpen # P a Plus # GClose # ps) s opn grp = Some (r, g) \<Longrightarrow>
   no_group ps \<Longrightarrow> \<exists>t. g = Some t \<and> t \<noteq> []"
  by (cases s) (auto split: if_splits dest: star_close_group)

lemma prefix_no_group:
  "match_here fl ps s opn grp = Some (r, g) \<Longrightarrow> ps = pre @ tail \<Longrightarrow> no_group pre \<Longrightarrow>
   (\<forall>s opn grp r g. match_here fl tail s opn grp = Some (r, g) \<longrightarrow> Q g) \<Longrightarrow> Q g"
proof (induction fl ps s opn grp arbitrary: pre rule: match_here.induct)
  case (1 fl s opn grp)
  then show ?case by auto
next
  case (2 fl ps s opn grp)
  show ?case
  proof (cases pre)
    case Nil
    with 2 show ?thesis by auto
  next
    case (Cons p pre')
    with 2 show ?thesis by (auto simp: no_group_Cons)
  qed
next
  case (3 fl ps s opn grp)
  show ?case
  proof (cases pre)
    case Nil
    with 3 show ?thesis by auto
  next
    case (Cons p pre')
    with 3 show ?thesis by (auto simp: no_group_Cons)
  qed
next
  case (4 fl a ps opn grp)
  from "4.prems"(1) show ?case by simp
next
  case (5 fl a ps c cs opn grp)
  show ?case
  proof (cases pre)
    case Nil
    with 5 show ?thesis by auto
  next
    case (Cons p pre')
    with 5 show ?thesis by (auto simp: no_group_Cons split: if_splits)
  qed
next
  case (6 fl a ps opn grp)
  show ?case
  proof (cases pre)
    case Nil
    with 6 show ?thesis by auto
  next
    case (Cons p pre')
    with 6 show ?thesis by (auto simp: no_group_Cons split: if_splits)
  qed
next
  case (7 fl a ps c cs opn grp)
  show ?case
  proof (cases pre)
    case Nil
    with 7 show ?thesis by auto
  next
    case (Cons p pre')
    with 7 show ?thesis by (auto simp: no_group_Cons split: if_splits option.splits)
  qed
next
  case (8 fl a ps opn grp)
  show ?case
  proof (cases pre)
    case Nil
    with 8 show ?thesis by auto
  next
    case (Cons p pre')
    with 8 show ?thesis by (auto simp: no_group_Cons split: if_splits)
  qed
next
  case (9 fl a ps c cs opn grp)
  show ?case
  proof (cases pre)
    case Nil
    with 9 show ?thesis by auto
  next
    case (Cons p pre')
    with 9 show ?thesis by (auto simp: no_group_Cons split: if_splits option.splits)
  qed
next
  case (10 fl a ps opn grp)
  from "10.prems"(1) show ?case by simp
next
  case (11 fl a ps c cs opn grp)
  show ?case
  proof (cases pre)
    case Nil
    with 11 show ?thesis by auto
  next
    case (Cons p pre')
    with 11 have "match_here fl (P a Star # ps) cs opn grp = Some (r, g)"
      and "P a Star # ps = (P a Star # pre') @ tail" and "no_group (P a Star # pre')"
      and "atom_ok fl a c cs"
      by (auto simp: no_group_Cons split: if_splits)
    with 11 show ?thesis by blast
  qed
qed


lemma no_group_Nil: "no_group []"
  by (simp add: no_group_def)

lemma token_regex_shape:
  "\<exists>pre. no_group pre \<and>
     token_regex = [pre @ [GOpen, P (NoneOf quotes) Plus, GClose, P (OneOf quotes) One]]"
  unfolding token_regex_def word_def
  by (rule exI [of _ "lits (u ''name'') @
        [P Space Star, P (Lit 0x3D) One, P Space Star, P (OneOf quotes) One] @
        lits (u ''token'') @ [P (OneOf quotes) One, P Space Plus] @
        lits (u ''value'') @
        [P Space Star, P (Lit 0x3D) One, P Space Star, P (OneOf quotes) One]"])
     (simp add: no_group_append no_group_lits no_group_Cons no_group_Nil)

lemma token_match_group:
  assumes "match_alts fl token_regex s = Some (r, g)"
  shows "\<exists>t. g = Some t \<and> t \<noteq> []"
proof -
  obtain pre where pre: "no_group pre"
    and shape: "token_regex = [pre @ [GOpen, P (NoneOf quotes) Plus, GClose, P (OneOf quotes) One]]"
    using token_regex_shape by blast
  let ?tail = "[GOpen, P (NoneOf quotes) Plus, GClose, P (OneOf quotes) One]"
  have "match_alts fl [pre @ ?tail] s = Some (r, g)"
    using assms by (simp only: shape)
  then have m: "match_here fl (pre @ ?tail) s None None = Some (r, g)"
    by (cases "match_here fl (pre @ ?tail) s None None") simp_all
  have tail: "\<forall>s opn grp r g. match_here fl ?tail s opn grp = Some (r, g)
                \<longrightarrow> (\<exists>t. g = Some t \<and> t \<noteq> [])"
    using plus_group_nonempty [of fl "NoneOf quotes" "[P (OneOf quotes) One]"]
    by (simp add: no_group_Cons no_group_Nil)
  show ?thesis
    by (rule prefix_no_group [OF m refl pre tail])
qed

lemma re_search_token_group:
  "re_search token_regex s fl = Some g \<Longrightarrow> \<exists>t. g = Some t \<and> t \<noteq> []"
proof (induction s)
  case Nil
  then obtain r where "match_alts fl token_regex [] = Some (r, g)" by auto
  then show ?case by (rule token_match_group)
next
  case (Cons c cs)
  show ?case
  proof (cases "match_alts fl token_regex (c # cs)")
    case None
    with Cons show ?thesis by simp
  next
    case (Some m)
    with Cons.prems have "match_alts fl token_regex (c # cs) = Some (fst m, g)" by auto
    then show ?thesis by (rule token_match_group)
  qed
qed

lemma regex_token_nonempty: "regex_token html = Some t \<Longrightarrow> t \<noteq> []"
  unfolding regex_token_def
  by (auto split: option.splits dest: re_search_token_group)

lemma bs4_token_nonempty: "bs4_token env html = Some t \<Longrightarrow> t \<noteq> []"
  unfolding bs4_token_def
  by (auto split: sum.splits option.splits if_splits)

text \<open>
  Claim C9. A token the extractor returns is never the empty string: the structured
  path returns the \<open>value\<close> attribute only when it is non-empty, and group 1 of the
  fallback pattern holds at least one character.
\<close>

theorem token_never_empty:
  "extract_csrf_token_from_html env html = Some t \<Longrightarrow> t \<noteq> []"
  unfolding extract_csrf_token_from_html_def
  by (auto split: if_splits option.splits dest: regex_token_nonempty bs4_token_nonempty)

theorem token_never_empty_witness:
  "extract_csrf_token_from_html
     (mock_env True (parsed [Tag (u ''form'') []
        [Tag (u ''input'') [(u ''name'', u ''token''), (u ''value'', u ''abc'')] []]]) no_loads)
     (u ''<form>'') = Some (u ''abc'') \<and> u ''abc'' \<noteq> []"
proof -
  have "extract_csrf_token_from_html
     (mock_env True (parsed [Tag (u ''form'') []
        [Tag (u ''input'') [(u ''name'', u ''token''), (u ''value'', u ''abc'')] []]]) no_loads)
     (u ''<form>'') = Some (u ''abc'')"
    by (simp add: extract_csrf_token_from_html_def bs4_token_def mock_env_def parsed_def
          find_attr_def find_all_def u_def)
  then show ?thesis
    using token_never_empty by blast
qed

subsection \<open>The challenge detector\<close>

text \<open>
  Claim C2, as the code has it. The detector answers \<open>False\<close> for an empty body before
  it looks at anything. For a non-empty body it answers \<open>True\<close> exactly when the body
  matches one of the thirteen patterns or the URL matches the two-factor pattern.
\<close>

theorem is_2fa_or_human_challenge_iff:
  "is_2fa_or_human_challenge text url \<longleftrightarrow>
     text \<noteq> [] \<and>
     ((\<exists>p \<in> set challenge_patterns. matches [p] text re_I) \<or> matches two_factor_url url re_I)"
  by (simp add: is_2fa_or_human_challenge_def list_ex_iff)







lemma re_search_here:
  "match_alts fl r s = Some m \<Longrightarrow> re_search r s fl = Some (snd m)"
  by (cases s) simp_all




text \<open>
  The claim as stated fails: with an empty body, a URL that matches the two-factor
  pattern is not reported.
\<close>

theorem empty_body_hides_two_factor_url:
  "matches two_factor_url (u ''/2fa'') re_I \<and> \<not> is_2fa_or_human_challenge [] (u ''/2fa'')"
  by (simp add: re_eval two_factor_url_def is_2fa_or_human_challenge_def)

theorem is_2fa_or_human_challenge_iff_witness:
  "is_2fa_or_human_challenge (u ''x'') (u ''/2fa'')"
proof -
  have "u ''x'' \<noteq> []" by (simp add: u_def)
  moreover have "matches two_factor_url (u ''/2fa'') re_I"
    by (simp add: re_eval two_factor_url_def)
  ultimately show ?thesis
    using is_2fa_or_human_challenge_iff [of "u ''x''" "u ''/2fa''"] by blast
qed

subsection \<open>The fallback pattern of the token extractor\<close>






subsection \<open>Runs against the mocked transport\<close>

lemma mock_http_request_ok:
  "status_code r < 500 \<Longrightarrow>
   http_request (mock_env b p l) m url 3 kw (Inr r # q, log) =
     (Inr r, (q, log @ [session_call m url kw]))"
  by (simp add: http_request_def numeral_3_eq_3 mock_env_def mock_request_def)

lemma mock_get_page_ok:
  "status_code r < 500 \<Longrightarrow>
   get_page (mock_env b p l) url hs (Inr r # q, log) =
     (Inr r, (q, log @ [session_call (u ''GET'') url
                          \<lparr>headers = hs, data = None, allow_redirects = None\<rparr>]))"
  by (simp add: get_page_def retries_default_def mock_http_request_ok)

lemma mock_post_form_ok:
  "status_code r < 500 \<Longrightarrow>
   post_form (mock_env b p l) url hs payload (Inr r # q, log) =
     (Inr r, (q, log @ [session_call (u ''POST'') url
        \<lparr>headers = hs @ [(u ''Content-Type'', u ''application/x-www-form-urlencoded'')],
         data = Some payload, allow_redirects = Some True\<rparr>]))"
  by (simp add: post_form_def retries_default_def mock_http_request_ok)

lemma status_page: "status_code (page c b url) = c" "resp_text (page c b url) = b"
  "resp_url (page c b url) = url" "content_type (page c b url) = Some (u ''text/html'')"
  by (simp_all add: page_def)

subsection \<open>The authentication flow\<close>

lemma mock_urljoin:
  "urljoin (mock_env b p l) base ref = Inr (base @ ref)"
  "login_url_of (mock_env b p l) base = Inr (base @ u ''/index.php?rp=/login'')"
  "clientarea_url (mock_env b p l) base = Inr (base @ u ''/clientarea.php'')"
  by (simp_all add: mock_env_def login_url_of_def clientarea_url_def)

lemma login_whmcs_step:
  "login_url_of env base_url = Inr login_url \<Longrightarrow>
   get_page env login_url (browser_headers base_url) w = (Inr r1, w1) \<Longrightarrow>
   login_whmcs env base_url email password w =
     (if is_2fa_or_human_challenge (resp_text r1) (resp_url r1) then
        (Inr (TWO_FA, JStr (u ''2FA or human verification detected on login page'')), w1)
      else submit_login env base_url
             (login_post_url env base_url login_url (resp_text r1))
             (login_payload env email password (resp_text r1)) w1)"
  by (simp add: login_whmcs_def)

lemma login_whmcs_url_raises:
  "login_url_of env base_url = Inl e \<Longrightarrow>
   login_whmcs env base_url email password w = (Inl e, w)"
  by (simp add: login_whmcs_def)

lemma submit_login_step:
  "post_form env post_url (browser_headers base_url) payload w = (Inr r2, w2) \<Longrightarrow>
   submit_login env base_url post_url payload w =
     (if is_2fa_or_human_challenge (resp_text r2) (resp_url r2) then
        (Inr (TWO_FA, JStr (u ''2FA or human verification challenge detected after login'')), w2)
      else if any_match failure_patterns (resp_text r2) then
        (Inr (FAILED, JStr (u ''Invalid credentials or login failed'')), w2)
      else confirm_login env base_url w2)"
  by (simp add: submit_login_def)

lemma confirm_login_step:
  "clientarea_url env base_url = Inr ca_url \<Longrightarrow>
   get_page env ca_url (browser_headers base_url) w = (Inr r3, w3) \<Longrightarrow>
   confirm_login env base_url w =
     (if is_2fa_or_human_challenge (resp_text r3) (resp_url r3) then
        (Inr (TWO_FA, JStr (u ''2FA or human verification detected in client area'')), w3)
      else if any_match logged_in_indicators (resp_text r3) then
        (Inr (SUCCESS, JStr (u ''Logged in'')), w3)
      else (Inr (FAILED, JStr (u ''Unable to confirm login'')), w3))"
  by (simp add: confirm_login_def)

text \<open>
  Claim C4, as the code has it. With \<open>r1\<close> the login page, \<open>r2\<close> the answer to the POST
  and \<open>r3\<close> the dashboard, each where its URL resolves and the request is answered, the
  outcome is
  decided by six tests in this order: a challenge on \<open>r1\<close> gives \<open>TWO_FA\<close>; a challenge on
  \<open>r2\<close> gives \<open>TWO_FA\<close>; a login-failure phrase in \<open>r2\<close> gives \<open>FAILED\<close>; a challenge on
  \<open>r3\<close> gives \<open>TWO_FA\<close>; a logged-in indicator in \<open>r3\<close> gives \<open>SUCCESS\<close>; anything else
  gives \<open>FAILED\<close> with the detail \<open>Unable to confirm login\<close>. The flow stops at the
  request that decides it: the world returned is the world after that request.
\<close>

theorem login_whmcs_classification:
  assumes "login_url_of env base_url = Inr login_url"
    and "get_page env login_url (browser_headers base_url) w = (Inr r1, w1)"
  shows
   "(is_2fa_or_human_challenge (resp_text r1) (resp_url r1) \<longrightarrow>
       login_whmcs env base_url email password w =
         (Inr (TWO_FA, JStr (u ''2FA or human verification detected on login page'')), w1)) \<and>
    (\<not> is_2fa_or_human_challenge (resp_text r1) (resp_url r1) \<and>
     post_form env (login_post_url env base_url login_url (resp_text r1))
       (browser_headers base_url) (login_payload env email password (resp_text r1)) w1
       = (Inr r2, w2) \<longrightarrow>
       (is_2fa_or_human_challenge (resp_text r2) (resp_url r2) \<longrightarrow>
          login_whmcs env base_url email password w =
            (Inr (TWO_FA,
                  JStr (u ''2FA or human verification challenge detected after login'')), w2)) \<and>
       (\<not> is_2fa_or_human_challenge (resp_text r2) (resp_url r2) \<and>
        any_match failure_patterns (resp_text r2) \<longrightarrow>
          login_whmcs env base_url email password w =
            (Inr (FAILED, JStr (u ''Invalid credentials or login failed'')), w2)) \<and>
       (\<not> is_2fa_or_human_challenge (resp_text r2) (resp_url r2) \<and>
        \<not> any_match failure_patterns (resp_text r2) \<and>
        clientarea_url env base_url = Inr ca_url \<and>
        get_page env ca_url (browser_headers base_url) w2 = (Inr r3, w3) \<longrightarrow>
          login_whmcs env base_url email password w =
            (if is_2fa_or_human_challenge (resp_text r3) (resp_url r3) then
               (Inr (TWO_FA,
                     JStr (u ''2FA or human verification detected in client area'')), w3)
             else if any_match logged_in_indicators (resp_text r3) then
               (Inr (SUCCESS, JStr (u ''Logged in'')), w3)
             else (Inr (FAILED, JStr (u ''Unable to confirm login'')), w3))))"
  by (simp add: login_whmcs_step [OF assms] submit_login_step confirm_login_step)

lemmas challenge_eval = re_eval is_2fa_or_human_challenge_def challenge_patterns_def
  two_factor_url_def

text \<open>
  The claim as stated fails: the login page is clean and the answer to the POST holds
  a login-failure phrase, yet the outcome is \<open>TWO_FA\<close> and not \<open>FAILED\<close>, because the
  challenge test on that answer comes first (here the final URL is a two-factor URL).
\<close>

theorem failure_phrase_behind_challenge:
  "\<not> is_2fa_or_human_challenge (u ''hi'') [] \<and>
   any_match failure_patterns (u ''Invalid Login'') \<and>
   fst (login_whmcs (mock_env False no_parser no_loads) (u ''h'') (u ''e'') (u ''p'')
          ([Inr (page 200 (u ''hi'') []), Inr (page 200 (u ''Invalid Login'') (u ''/2fa''))], []))
     = Inr (TWO_FA, JStr (u ''2FA or human verification challenge detected after login''))"
proof -
  have c1: "\<not> is_2fa_or_human_challenge (u ''hi'') []"
    by (simp add: challenge_eval)
  have c2: "is_2fa_or_human_challenge (u ''Invalid Login'') (u ''/2fa'')"
    by (simp add: challenge_eval)
  have f2: "any_match failure_patterns (u ''Invalid Login'')"
    by (simp add: re_eval any_match_def failure_patterns_def)
  show ?thesis
    by (simp add: c1 c2 f2 login_whmcs_step [OF mock_urljoin(2)] mock_get_page_ok
          submit_login_step mock_post_form_ok status_page)
qed

text \<open>
  Two mocked runs: a clean login page, a clean answer to the POST and a dashboard with
  \<open>Logout\<close> give \<open>SUCCESS\<close>; a login page reached through a two-factor URL gives \<open>TWO_FA\<close>
  after one request.
\<close>

theorem login_whmcs_classification_witness:
  "fst (login_whmcs (mock_env False no_parser no_loads) (u ''h'') (u ''e'') (u ''p'')
          ([Inr (page 200 (u ''hi'') []), Inr (page 200 (u ''ok'') []),
            Inr (page 200 (u ''Logout'') [])], []))
     = Inr (SUCCESS, JStr (u ''Logged in'')) \<and>
   login_whmcs (mock_env False no_parser no_loads) (u ''h'') (u ''e'') (u ''p'')
     ([Inr (page 200 (u ''x'') (u ''/2fa'')), Inr (page 200 (u ''ok'') [])], [])
     = (Inr (TWO_FA, JStr (u ''2FA or human verification detected on login page'')),
        ([Inr (page 200 (u ''ok'') [])],
         [session_call (u ''GET'') (u ''h'' @ u ''/index.php?rp=/login'')
            \<lparr>headers = browser_headers (u ''h''), data = None, allow_redirects = None\<rparr>]))"
proof -
  let ?env = "mock_env False no_parser no_loads"
  let ?p1 = "page 200 (u ''hi'') []" and ?p2 = "page 200 (u ''ok'') []"
    and ?p3 = "page 200 (u ''Logout'') []" and ?p0 = "page 200 (u ''x'') (u ''/2fa'')"
  have c0: "is_2fa_or_human_challenge (resp_text ?p0) (resp_url ?p0)"
    by (simp add: status_page) (simp add: challenge_eval)
  have c1: "\<not> is_2fa_or_human_challenge (resp_text ?p1) (resp_url ?p1)"
    by (simp add: status_page) (simp add: challenge_eval)
  have c2: "\<not> is_2fa_or_human_challenge (resp_text ?p2) (resp_url ?p2)"
    by (simp add: status_page) (simp add: challenge_eval)
  have c3: "\<not> is_2fa_or_human_challenge (resp_text ?p3) (resp_url ?p3)"
    by (simp add: status_page) (simp add: challenge_eval)
  have f2: "\<not> any_match failure_patterns (resp_text ?p2)"
    by (simp add: status_page) (simp add: re_eval any_match_def failure_patterns_def)
  have i3: "any_match logged_in_indicators (resp_text ?p3)"
    by (simp add: status_page) (simp add: re_eval any_match_def logged_in_indicators_def)
  let ?login = "u ''h'' @ u ''/index.php?rp=/login''"
  have u1: "login_url_of ?env (u ''h'') = Inr ?login"
    by (rule mock_urljoin)
  have u3: "clientarea_url ?env (u ''h'') = Inr (u ''h'' @ u ''/clientarea.php'')"
    by (rule mock_urljoin)
  obtain l1 where a1: "get_page ?env ?login (browser_headers (u ''h''))
      ([Inr ?p1, Inr ?p2, Inr ?p3], []) = (Inr ?p1, ([Inr ?p2, Inr ?p3], l1))"
    by (simp add: mock_get_page_ok status_page)
  obtain l2 where a2: "post_form ?env
      (login_post_url ?env (u ''h'') ?login (resp_text ?p1))
      (browser_headers (u ''h'')) (login_payload ?env (u ''e'') (u ''p'') (resp_text ?p1))
      ([Inr ?p2, Inr ?p3], l1) = (Inr ?p2, ([Inr ?p3], l2))"
    by (simp add: mock_post_form_ok status_page)
  obtain l3 where a3: "get_page ?env (u ''h'' @ u ''/clientarea.php'') (browser_headers (u ''h''))
      ([Inr ?p3], l2) = (Inr ?p3, ([], l3))"
    by (simp add: mock_get_page_ok status_page)
  have a0: "get_page ?env ?login (browser_headers (u ''h''))
      ([Inr ?p0, Inr ?p2], []) =
      (Inr ?p0, ([Inr ?p2],
        [session_call (u ''GET'') ?login
           \<lparr>headers = browser_headers (u ''h''), data = None, allow_redirects = None\<rparr>]))"
    by (simp add: mock_get_page_ok status_page)
  have "login_whmcs ?env (u ''h'') (u ''e'') (u ''p'') ([Inr ?p1, Inr ?p2, Inr ?p3], [])
      = (Inr (SUCCESS, JStr (u ''Logged in'')), ([], l3))"
    using login_whmcs_classification [OF u1 a1, of "u ''e''" "u ''p''" ?p2 "([Inr ?p3], l2)"
        "u ''h'' @ u ''/clientarea.php''" ?p3 "([], l3)"] c1 c2 c3 f2 i3 a2 a3 u3
    by simp
  moreover
  have "login_whmcs ?env (u ''h'') (u ''e'') (u ''p'') ([Inr ?p0, Inr ?p2], [])
      = (Inr (TWO_FA, JStr (u ''2FA or human verification detected on login page'')),
         ([Inr ?p2],
          [session_call (u ''GET'') ?login
             \<lparr>headers = browser_headers (u ''h''), data = None, allow_redirects = None\<rparr>]))"
    using login_whmcs_classification [OF u1 a0, of "u ''e''" "u ''p''"] c0
    by blast
  ultimately show ?thesis by simp
qed

subsection \<open>The verdict on the check-in answer\<close>

lemma match_here_lits_ci:
  "list_all2 (lit_ok fl) w w' \<Longrightarrow>
   match_here fl (lits w @ ps) (w' @ s) opn grp = match_here fl ps s opn grp"
  by (induction rule: list_all2_induct) (simp_all add: lits_def)

lemma match_alts_lits:
  "lits w \<in> set r \<Longrightarrow> list_all2 (lit_ok fl) w w' \<Longrightarrow> match_alts fl r (w' @ post) \<noteq> None"
proof (induction r)
  case Nil
  then show ?case by simp
next
  case (Cons alt r)
  have "match_here fl (lits w @ []) (w' @ post) None None = Some (post, None)"
    using Cons.prems(2) by (simp only: match_here_lits_ci match_here.simps)
  then have here: "match_here fl (lits w) (w' @ post) None None = Some (post, None)"
    by simp
  show ?case
  proof (cases "alt = lits w")
    case True
    with here show ?thesis by simp
  next
    case False
    with Cons show ?thesis by (auto split: option.splits)
  qed
qed

lemma re_search_suffix:
  "match_alts fl r s \<noteq> None \<Longrightarrow> re_search r (pre @ s) fl \<noteq> None"
proof (induction pre)
  case Nil
  then show ?case using re_search_here [of fl r s] by auto
next
  case (Cons c pre)
  then show ?case by (auto split: option.splits)
qed

lemma contains_matches:
  "lits w \<in> set r \<Longrightarrow> list_all2 ci_match w w' \<Longrightarrow> matches r (pre @ w' @ post) re_I"
proof -
  assume w: "lits w \<in> set r" and ci: "list_all2 ci_match w w'"
  have "lit_ok re_I = ci_match"
    by (intro ext) (simp add: lit_ok_def re_I_def)
  with ci have "list_all2 (lit_ok re_I) w w'" by simp
  with w show ?thesis
    unfolding matches_def by (intro re_search_suffix match_alts_lits)
qed

text \<open>The phrases of the two patterns of the HTML case (lines 379 and 381).\<close>

lemma html_phrases:
  "lits [0x4ECA, 0x65E5, 0x5DF2, 0x7B7E, 0x5230] \<in> set already_html"
  "lits [0x5DF2, 0x7B7E, 0x5230] \<in> set already_html"
  "lits (u ''already'') \<in> set already_html"
  "lits [0x7B7E, 0x5230, 0x6210, 0x529F] \<in> set success_html"
  "lits [0x6210, 0x529F] \<in> set success_html"
  "lits (u ''success'') \<in> set success_html"
  by (simp_all add: already_html_def success_html_def qiandao_def word_def)

text \<open>
  Claim C5. Take an answer that is not JSON-typed. When its body holds one of the
  phrases of the already-done pattern (\<open>a\<close>, read as \<open>a'\<close> in any letter case that
  \<open>re.I\<close> accepts) and one of the phrases of the success pattern (\<open>s\<close>, read as \<open>s'\<close>),
  wherever they stand, the verdict is \<open>ALREADY\<close>, although the success pattern matches
  the body too: the already-done test comes first. The success test is the second
  one: a body with a success phrase that the already-done pattern does not match
  gives \<open>SUCCESS\<close>.
\<close>

theorem already_before_success:
  assumes "\<not> maybe_json env resp"
  shows
   "(lits a \<in> set already_html \<and> list_all2 ci_match a a' \<and>
     resp_text resp = pre @ a' @ post \<and>
     lits s \<in> set success_html \<and> list_all2 ci_match s s' \<and>
     resp_text resp = pre' @ s' @ post' \<longrightarrow>
       checkin_result env resp = (ALREADY, JStr (u ''Already checked in today'')) \<and>
       matches success_html (resp_text resp) re_I) \<and>
    (\<not> matches already_html (resp_text resp) re_I \<and>
     lits s \<in> set success_html \<and> list_all2 ci_match s s' \<and>
     resp_text resp = pre' @ s' @ post' \<longrightarrow>
       checkin_result env resp = (SUCCESS, JStr (u ''Check-in success'')))"
proof (intro conjI impI)
  assume h: "lits a \<in> set already_html \<and> list_all2 ci_match a a' \<and>
     resp_text resp = pre @ a' @ post \<and>
     lits s \<in> set success_html \<and> list_all2 ci_match s s' \<and>
     resp_text resp = pre' @ s' @ post'"
  then have a: "lits a \<in> set already_html" "list_all2 ci_match a a'"
    and ta: "resp_text resp = pre @ a' @ post"
    and s: "lits s \<in> set success_html" "list_all2 ci_match s s'"
    and ts: "resp_text resp = pre' @ s' @ post'"
    by blast+
  have "matches already_html (resp_text resp) re_I"
    unfolding ta using a by (rule contains_matches)
  then show "checkin_result env resp = (ALREADY, JStr (u ''Already checked in today''))"
    using assms by (simp add: checkin_result_def html_case_def)
  show "matches success_html (resp_text resp) re_I"
    unfolding ts using s by (rule contains_matches)
next
  assume h: "\<not> matches already_html (resp_text resp) re_I \<and>
     lits s \<in> set success_html \<and> list_all2 ci_match s s' \<and>
     resp_text resp = pre' @ s' @ post'"
  then have n: "\<not> matches already_html (resp_text resp) re_I"
    and s: "lits s \<in> set success_html" "list_all2 ci_match s s'"
    and ts: "resp_text resp = pre' @ s' @ post'"
    by blast+
  have "matches success_html (resp_text resp) re_I"
    unfolding ts using s by (rule contains_matches)
  with n show "checkin_result env resp = (SUCCESS, JStr (u ''Check-in success''))"
    using assms by (simp add: checkin_result_def html_case_def)
qed

lemma mock_not_json: "\<not> maybe_json (mock_env b p l) (page c body url)"
  by (simp add: maybe_json_def mock_env_def status_page u_def ascii_lower_def)

text \<open>
  Three bodies: the two CJK phrases side by side, and \<open>ALREADY checked in. SUCCESS\<close>
  in capitals, are both \<open>ALREADY\<close>; \<open>Success!\<close> alone is \<open>SUCCESS\<close>.
\<close>

theorem already_before_success_witness:
  "checkin_result (mock_env False no_parser no_loads)
     (page 200 [0x5DF2, 0x7B7E, 0x5230, 0x7B7E, 0x5230, 0x6210, 0x529F] [])
   = (ALREADY, JStr (u ''Already checked in today'')) \<and>
   checkin_result (mock_env False no_parser no_loads)
     (page 200 (u ''ALREADY checked in. SUCCESS'') [])
   = (ALREADY, JStr (u ''Already checked in today'')) \<and>
   checkin_result (mock_env False no_parser no_loads) (page 200 (u ''Success!'') [])
   = (SUCCESS, JStr (u ''Check-in success''))"
proof -
  let ?env = "mock_env False no_parser no_loads"
  note al = html_phrases(2,3) and su = html_phrases(4,6)
  have ci: "list_all2 ci_match [0x5DF2, 0x7B7E, 0x5230] [0x5DF2, 0x7B7E, 0x5230]"
      "list_all2 ci_match [0x7B7E, 0x5230, 0x6210, 0x529F] [0x7B7E, 0x5230, 0x6210, 0x529F]"
      "list_all2 ci_match (u ''already'') (u ''ALREADY'')"
      "list_all2 ci_match (u ''success'') (u ''SUCCESS'')"
      "list_all2 ci_match (u ''success'') (u ''Success'')"
    by (simp_all add: u_def ci_match_def ascii_lower_def)
  have t1: "resp_text (page 200 [0x5DF2, 0x7B7E, 0x5230, 0x7B7E, 0x5230, 0x6210, 0x529F] [])
              = [] @ [0x5DF2, 0x7B7E, 0x5230] @ [0x7B7E, 0x5230, 0x6210, 0x529F]"
      "resp_text (page 200 [0x5DF2, 0x7B7E, 0x5230, 0x7B7E, 0x5230, 0x6210, 0x529F] [])
              = [0x5DF2, 0x7B7E, 0x5230] @ [0x7B7E, 0x5230, 0x6210, 0x529F] @ []"
    by (simp_all add: status_page)
  have t2: "resp_text (page 200 (u ''ALREADY checked in. SUCCESS'') [])
              = [] @ u ''ALREADY'' @ u '' checked in. SUCCESS''"
      "resp_text (page 200 (u ''ALREADY checked in. SUCCESS'') [])
              = u ''ALREADY checked in. '' @ u ''SUCCESS'' @ []"
    by (simp_all add: status_page u_def)
  have t3: "resp_text (page 200 (u ''Success!'') []) = [] @ u ''Success'' @ u ''!''"
    by (simp add: status_page u_def)
  have n3: "\<not> matches already_html (resp_text (page 200 (u ''Success!'') [])) re_I"
    by (simp add: status_page) (simp add: re_eval already_html_def qiandao_def)
  have r1: "checkin_result ?env
       (page 200 [0x5DF2, 0x7B7E, 0x5230, 0x7B7E, 0x5230, 0x6210, 0x529F] [])
     = (ALREADY, JStr (u ''Already checked in today''))"
    using already_before_success [OF mock_not_json] al(1) ci(1) t1(1) su(1) ci(2) t1(2)
    by blast
  have r2: "checkin_result ?env (page 200 (u ''ALREADY checked in. SUCCESS'') [])
     = (ALREADY, JStr (u ''Already checked in today''))"
    using already_before_success [OF mock_not_json] al(2) ci(3) t2(1) su(2) ci(4) t2(2)
    by blast
  have r3: "checkin_result ?env (page 200 (u ''Success!'') [])
     = (SUCCESS, JStr (u ''Check-in success''))"
    using already_before_success [OF mock_not_json] n3 su(2) ci(5) t3
    by blast
  from r1 r2 r3 show ?thesis by simp
qed

subsection \<open>The submission target\<close>

lemma find_login_form_first:
  "\<forall>g \<in> set before. \<not> action_has_login g \<and> \<not> has_credential_inputs g \<Longrightarrow>
   action_has_login f \<or> has_credential_inputs f \<Longrightarrow>
   find_login_form (before @ f # after) = Some f"
  by (induction before) auto

lemma find_login_form_none:
  "\<forall>g \<in> set forms. \<not> action_has_login g \<and> \<not> has_credential_inputs g \<Longrightarrow>
   find_login_form forms = None"
  by (induction forms) auto

text \<open>
  Claim C8, as the code has it. The loop takes the first form in document order that
  passes either test, the action matching \<open>/login\<close> or the two inputs: neither test
  has precedence over the other. The POST goes to the resolved action of that form
  when its action is non-empty and \<open>urljoin\<close> resolves it, and to the login URL
  otherwise: when the chosen form has no action, when \<open>urljoin\<close> raises on the action,
  when no form passes a test, when there is no parser, or when the parser raises.
\<close>

theorem login_post_url_first_form:
  "(HAVE_BS4 env \<and> BeautifulSoup env text = Inr soup \<and>
    find_all soup [u ''form''] = before @ f # after \<and>
    (\<forall>g \<in> set before. \<not> action_has_login g \<and> \<not> has_credential_inputs g) \<and>
    (action_has_login f \<or> has_credential_inputs f)
    \<longrightarrow> login_post_url env base_url login_url text =
          (case tag_get f (u ''action'') of
             None \<Rightarrow> login_url
           | Some a \<Rightarrow>
               if a \<noteq> [] then
                 (case urljoin env base_url a of Inl e \<Rightarrow> login_url | Inr url \<Rightarrow> url)
               else login_url)) \<and>
   (HAVE_BS4 env \<and> BeautifulSoup env text = Inr soup \<and>
    (\<forall>g \<in> set (find_all soup [u ''form'']).
        \<not> action_has_login g \<and> \<not> has_credential_inputs g)
    \<longrightarrow> login_post_url env base_url login_url text = login_url) \<and>
   (\<not> HAVE_BS4 env \<or> BeautifulSoup env text = Inl e
    \<longrightarrow> login_post_url env base_url login_url text = login_url)"
  by (auto simp: login_post_url_def find_login_form_first find_login_form_none)

lemma forms_eval:
  "action_has_login login_form" "\<not> action_has_login credentials_form"
  "has_credential_inputs credentials_form" "\<not> has_credential_inputs login_form"
  by (simp_all add: action_has_login_def has_credential_inputs_def login_form_def
        credentials_form_def find_attr_def find_all_def login_action_def re_eval)

lemma forms_found:
  "find_all [a, b] [u ''form''] = [a, b]"
  if "a = login_form \<or> a = credentials_form" "b = login_form \<or> b = credentials_form"
  using that by (auto simp: find_all_def login_form_def credentials_form_def u_def)

text \<open>
  The claim as stated fails: on a page with the credentials form before the form whose
  action is \<open>/login\<close>, the POST goes to \<open>/auth.php\<close>, the action of the credentials form.
\<close>

theorem credentials_form_first_wins:
  "find_all [credentials_form, login_form] [u ''form''] = [credentials_form, login_form] \<and>
   has_credential_inputs credentials_form \<and> \<not> action_has_login credentials_form \<and>
   action_has_login login_form \<and>
   login_post_url (mock_env True (parsed [credentials_form, login_form]) no_loads)
     (u ''h'') (u ''h/l'') (u ''x'') = u ''h/auth.php'' \<and>
   tag_get login_form (u ''action'') = Some (u ''/login'')"
  by (simp add: forms_eval forms_found login_post_url_def mock_env_def parsed_def)
     (simp add: credentials_form_def login_form_def u_def)

text \<open>
  Four pages: with the \<open>/login\<close> form first the POST goes to its action; with no form,
  with no parser, and with a \<open>urljoin\<close> that raises, it goes to the login URL.
\<close>

theorem login_post_url_first_form_witness:
  "login_post_url (mock_env True (parsed [login_form, credentials_form]) no_loads)
     (u ''h'') (u ''h/l'') (u ''x'') = u ''h/login'' \<and>
   login_post_url (mock_env True (parsed []) no_loads) (u ''h'') (u ''h/l'') (u ''x'') = u ''h/l'' \<and>
   login_post_url (mock_env False no_parser no_loads) (u ''h'') (u ''h/l'') (u ''x'') = u ''h/l'' \<and>
   login_post_url (broken_urljoin (mock_env True (parsed [login_form, credentials_form]) no_loads))
     (u ''h'') (u ''h/l'') (u ''x'') = u ''h/l''"
proof -
  let ?env1 = "mock_env True (parsed [login_form, credentials_form]) no_loads"
  let ?env4 = "broken_urljoin ?env1"
  let ?env2 = "mock_env True (parsed []) no_loads"
  let ?env3 = "mock_env False no_parser no_loads"
  have h1: "HAVE_BS4 ?env1" "BeautifulSoup ?env1 (u ''x'') = Inr [login_form, credentials_form]"
    by (simp_all add: mock_env_def parsed_def)
  have f1: "find_all [login_form, credentials_form] [u ''form'']
              = [] @ login_form # [credentials_form]"
    by (simp add: forms_found)
  have "login_post_url ?env1 (u ''h'') (u ''h/l'') (u ''x'') =
          (case tag_get login_form (u ''action'') of
             None \<Rightarrow> u ''h/l''
           | Some a \<Rightarrow>
               if a \<noteq> [] then
                 (case urljoin ?env1 (u ''h'') a of Inl e \<Rightarrow> u ''h/l'' | Inr url \<Rightarrow> url)
               else u ''h/l'')"
    using login_post_url_first_form [of ?env1 "u ''x''" "[login_form, credentials_form]"
        "[]" login_form "[credentials_form]" "u ''h''" "u ''h/l''"] h1 f1 forms_eval(1)
    by simp
  then have r1: "login_post_url ?env1 (u ''h'') (u ''h/l'') (u ''x'') = u ''h/login''"
    by (simp add: login_form_def mock_env_def u_def)
  have h2: "HAVE_BS4 ?env2" "BeautifulSoup ?env2 (u ''x'') = Inr []"
    by (simp_all add: mock_env_def parsed_def)
  have r2: "login_post_url ?env2 (u ''h'') (u ''h/l'') (u ''x'') = u ''h/l''"
    using login_post_url_first_form [of ?env2 "u ''x''" "[]" _ _ _ "u ''h''" "u ''h/l''"] h2
    by (simp add: find_all_def)
  have h3: "\<not> HAVE_BS4 ?env3"
    by (simp add: mock_env_def)
  have r3: "login_post_url ?env3 (u ''h'') (u ''h/l'') (u ''x'') = u ''h/l''"
    using login_post_url_first_form [of ?env3 "u ''x''" _ _ _ _ "u ''h''" "u ''h/l''"] h3
    by simp
  have h4: "HAVE_BS4 ?env4" "BeautifulSoup ?env4 (u ''x'') = Inr [login_form, credentials_form]"
    by (simp_all add: broken_urljoin_def mock_env_def parsed_def)
  have "login_post_url ?env4 (u ''h'') (u ''h/l'') (u ''x'') =
          (case tag_get login_form (u ''action'') of
             None \<Rightarrow> u ''h/l''
           | Some a \<Rightarrow>
               if a \<noteq> [] then
                 (case urljoin ?env4 (u ''h'') a of Inl e \<Rightarrow> u ''h/l'' | Inr url \<Rightarrow> url)
               else u ''h/l'')"
    using login_post_url_first_form [of ?env4 "u ''x''" "[login_form, credentials_form]"
        "[]" login_form "[credentials_form]" "u ''h''" "u ''h/l''"] h4 f1 forms_eval(1)
    by simp
  then have r4: "login_post_url ?env4 (u ''h'') (u ''h/l'') (u ''x'') = u ''h/l''"
    by (simp add: login_form_def broken_urljoin_def)
  from r1 r2 r3 r4 show ?thesis by simp
qed

subsection \<open>The orchestrator\<close>

lemma process_account_fields:
  assumes "safe_label account = Inr label"
    and "stripped_field account (u ''email'') [] = Inr email"
    and "stripped_field account (u ''password'') [] = Inr password"
    and "stripped_field account (u ''base_url'') DEFAULT_BASE_URL = Inr base"
    and "stripped_field account (u ''tg_chat_id'') chat = Inr chat_id"
  shows "process_account env chat account w =
     (if email = [] \<or> password = [] then
        (Inr (FAILED, label, JStr (u ''Missing credentials'')), w)
      else
        (case login_and_checkin env label (str_rstrip [0x2F] base) email password w of
           (r, w') \<Rightarrow> (Inr r, w')))"
  by (simp add: process_account_def assms)

lemma process_account_label_raises:
  "safe_label account = Inl e \<Longrightarrow> process_account env chat account w = (Inl e, w)"
  by (simp add: process_account_def)

lemma login_and_checkin_cases:
  assumes "login_whmcs env base_url email password (Session_new env w) = (r, w1)"
  shows "login_and_checkin env label base_url email password w =
     (case r of
        Inl e \<Rightarrow> ((FAILED, label, JStr (u ''Login error: '' @ exn_msg e)), w1)
      | Inr (st, d) \<Rightarrow>
          if st = SUCCESS then
            (case perform_checkin env base_url w1 of
               (Inl e, w2) \<Rightarrow> ((FAILED, label, JStr (u ''Check-in error: '' @ exn_msg e)), w2)
             | (Inr (st2, d2), w2) \<Rightarrow> ((st2, label, d2), w2))
          else ((if st = TWO_FA then TWO_FA else FAILED, label, d), w1))"
  using assms by (auto simp: login_and_checkin_def split: sum.splits prod.splits)


lemma length_filter_all: "length (filter Q xs) = length xs \<longleftrightarrow> (\<forall>x \<in> set xs. Q x)"
proof (induction xs)
  case Nil
  then show ?case by simp
next
  case (Cons x xs)
  show ?case
  proof (cases "Q x")
    case True
    with Cons show ?thesis by simp
  next
    case False
    have "length (filter Q xs) < Suc (length xs)"
      by (simp add: le_imp_less_Suc)
    with False show ?thesis by auto
  qed
qed

lemma exit_code_iff:
  "exit_code results = (if results \<noteq> [] \<and> (\<forall>r \<in> set results. fst r = FAILED) then 1 else 0)"
  by (auto simp: exit_code_def Let_def length_filter_all)

lemma main_no_accounts:
  "environ (u ''ACCOUNTS'') = None \<or> environ (u ''ACCOUNTS'') = Some [] \<Longrightarrow>
   main env environ w = (Inr 0, w)"
  by (auto simp: main_def)

lemma main_invalid_accounts:
  "environ (u ''ACCOUNTS'') = Some raw \<Longrightarrow> raw \<noteq> [] \<Longrightarrow>
   json_loads env raw = Inl e \<or> (json_loads env raw = Inr j \<and> (\<forall>xs. j \<noteq> JArr xs)) \<Longrightarrow>
   main env environ w = (Inr 1, w)"
  by (cases j) (auto simp: main_def)

lemma main_policy:
  "environ (u ''ACCOUNTS'') = Some raw \<Longrightarrow> raw \<noteq> [] \<Longrightarrow>
   json_loads env raw = Inr (JArr accounts) \<Longrightarrow>
   run_accounts env (getenv_or environ (u ''TG_CHAT_ID'') (u ''TELEGRAM_CHAT_ID''))
     accounts [] w = (Inr results, w') \<Longrightarrow>
   main env environ w =
     (Inr (if results \<noteq> [] \<and> (\<forall>r \<in> set results. fst r = FAILED) then 1 else 0),
      report env results w')"
  by (simp add: main_def exit_code_iff)

lemma main_uncaught:
  "environ (u ''ACCOUNTS'') = Some raw \<Longrightarrow> raw \<noteq> [] \<Longrightarrow>
   json_loads env raw = Inr (JArr accounts) \<Longrightarrow>
   run_accounts env (getenv_or environ (u ''TG_CHAT_ID'') (u ''TELEGRAM_CHAT_ID''))
     accounts [] w = (Inl e, w') \<Longrightarrow>
   main env environ w = (Inl e, w')"
  by (simp add: main_def)



lemma mock_session_new: "Session_new (mock_env b p l) w = w"
  by (simp add: mock_env_def)

lemma default_base_url_stripped:
  "str_strip DEFAULT_BASE_URL = DEFAULT_BASE_URL"
  "str_rstrip [0x2F] DEFAULT_BASE_URL = DEFAULT_BASE_URL"
  by (simp_all add: str_strip_def str_rstrip_def DEFAULT_BASE_URL_def u_def is_space_def)

lemmas field_eval = safe_label_def stripped_field_def account_get_def dict_get_def
  mask_email_def str_strip_def is_space_def u_def Let_def

lemma account_ab_fields:
  "safe_label account_ab = Inr (u ''a*@c'')"
  "stripped_field account_ab (u ''email'') [] = Inr (u ''ab@c'')"
  "stripped_field account_ab (u ''password'') [] = Inr (u ''p'')"
  "stripped_field account_ab (u ''base_url'') DEFAULT_BASE_URL = Inr DEFAULT_BASE_URL"
  "stripped_field account_ab (u ''tg_chat_id'') [] = Inr []"
  "u ''ab@c'' \<noteq> []" "u ''p'' \<noteq> []"
proof -
  show "stripped_field account_ab (u ''base_url'') DEFAULT_BASE_URL = Inr DEFAULT_BASE_URL"
    using default_base_url_stripped(1)
    by (simp add: stripped_field_def account_get_def dict_get_def account_ab_def u_def)
qed (simp_all add: field_eval account_ab_def)

lemma account_at_label:
  "safe_label account_at = Inl (Exn (u ''IndexError'') (u ''string index out of range''))"
  "safe_label account_at_no_password =
     Inl (Exn (u ''IndexError'') (u ''string index out of range''))"
  "stripped_field account_at_no_password (u ''email'') [] = Inr (u ''@c'')"
  "stripped_field account_at_no_password (u ''password'') [] = Inr []"
  by (simp_all add: field_eval account_at_def account_at_no_password_def)

lemma challenge_by_url: "is_2fa_or_human_challenge (u ''x'') (u ''/2fa'')"
  by (simp add: challenge_eval)

lemma mock_login_challenge:
  "login_whmcs (mock_env b p l) base_url email password
     (Inr (page 200 (u ''x'') (u ''/2fa'')) # q, log) =
   (Inr (TWO_FA, JStr (u ''2FA or human verification detected on login page'')),
    (q, log @ [session_call (u ''GET'') (base_url @ u ''/index.php?rp=/login'')
         \<lparr>headers = browser_headers base_url, data = None, allow_redirects = None\<rparr>]))"
  by (simp add: login_whmcs_step [OF mock_urljoin(2)] mock_get_page_ok status_page
        challenge_by_url)



lemma missing_credentials_recorded:
  assumes "safe_label account = Inr label"
    and "stripped_field account (u ''email'') [] = Inr email"
    and "stripped_field account (u ''password'') [] = Inr password"
    and "stripped_field account (u ''base_url'') DEFAULT_BASE_URL = Inr base"
    and "stripped_field account (u ''tg_chat_id'') chat = Inr chat_id"
    and "email = [] \<or> password = []"
  shows "process_account env chat account w =
           (Inr (FAILED, label, JStr (u ''Missing credentials'')), w)"
  using assms(6) by (simp add: process_account_fields [OF assms(1-5)])

lemma run_accounts_all_missing:
  "\<forall>a \<in> set accounts. \<exists>label.
      process_account env chat a w = (Inr (FAILED, label, JStr (u ''Missing credentials'')), w) \<Longrightarrow>
   \<exists>rs. run_accounts env chat accounts results w = (Inr (results @ rs), w) \<and>
        length rs = length accounts \<and> (\<forall>r \<in> set rs. fst r = FAILED)"
proof (induction accounts arbitrary: results)
  case Nil
  then show ?case by simp
next
  case (Cons a accounts)
  then obtain label where
    a: "process_account env chat a w = (Inr (FAILED, label, JStr (u ''Missing credentials'')), w)"
    by auto
  from Cons obtain rs where
    rs: "run_accounts env chat accounts
           (results @ [(FAILED, label, JStr (u ''Missing credentials''))]) w
         = (Inr ((results @ [(FAILED, label, JStr (u ''Missing credentials''))]) @ rs), w)"
      "length rs = length accounts" "\<forall>r \<in> set rs. fst r = FAILED"
    by (metis list.set_intros(2))
  show ?case
    by (rule exI [of _ "(FAILED, label, JStr (u ''Missing credentials'')) # rs"])
       (simp add: a rs)
qed

lemma all_missing_exit_1:
  assumes "environ (u ''ACCOUNTS'') = Some raw" and "raw \<noteq> []"
    and "json_loads env raw = Inr (JArr accounts)" and "accounts \<noteq> []"
    and "\<forall>a \<in> set accounts. \<exists>label.
      process_account env (getenv_or environ (u ''TG_CHAT_ID'') (u ''TELEGRAM_CHAT_ID'')) a w =
        (Inr (FAILED, label, JStr (u ''Missing credentials'')), w)"
  shows "fst (main env environ w) = Inr 1"
proof -
  from run_accounts_all_missing [OF assms(5), of "[]"] obtain rs where
    rs: "run_accounts env (getenv_or environ (u ''TG_CHAT_ID'') (u ''TELEGRAM_CHAT_ID''))
           accounts [] w = (Inr rs, w)"
      "length rs = length accounts" "\<forall>r \<in> set rs. fst r = FAILED"
    by auto
  from rs(2) assms(4) have "rs \<noteq> []" by auto
  with main_policy [OF assms(1-3) rs(1)] rs(3) show ?thesis by simp
qed

lemma only_accounts_env:
  "only_accounts raw (u ''ACCOUNTS'') = Some raw"
  "getenv_or (only_accounts raw) (u ''TG_CHAT_ID'') (u ''TELEGRAM_CHAT_ID'') = []"
  by (simp_all add: only_accounts_def getenv_or_def or_default_def u_def)

lemma mock_json_loads: "json_loads (mock_env b p (loads_as j)) raw = Inr j"
  by (simp add: mock_env_def loads_as_def)

text \<open>
  Claim C7 against the code. The exit code policy itself is as claimed when \<open>main\<close>
  returns (\<open>main_no_accounts\<close>, \<open>main_invalid_accounts\<close>, \<open>main_policy\<close>). But an
  exception raised while an account's label is computed is caught nowhere and leaves
  \<open>main\<close>, so the process ends with status 1 whatever was recorded before. Here the
  first account is answered with a challenge and recorded as \<open>TWO_FA\<close>; the second has
  the email \<open>@c\<close>, for which \<open>mask_email\<close> raises \<open>IndexError\<close>; the exit status is 1,
  where the claim says 0.
\<close>

theorem challenge_outcome_then_crash_exits_1:
  "fst (process_account (mock_env False no_parser (loads_as (JArr [account_ab, account_at]))) []
          account_ab ([Inr (page 200 (u ''x'') (u ''/2fa''))], []))
     = Inr (TWO_FA, u ''a*@c'', JStr (u ''2FA or human verification detected on login page'')) \<and>
   fst (main (mock_env False no_parser (loads_as (JArr [account_ab, account_at])))
          (only_accounts (u ''[{\"email\":\"ab@c\",\"password\":\"p\"},{\"email\":\"@c\",\"password\":\"p\"}]''))
          ([Inr (page 200 (u ''x'') (u ''/2fa''))], []))
     = Inl (Exn (u ''IndexError'') (u ''string index out of range'')) \<and>
   exit_status
     (fst (main (mock_env False no_parser (loads_as (JArr [account_ab, account_at])))
          (only_accounts (u ''[{\"email\":\"ab@c\",\"password\":\"p\"},{\"email\":\"@c\",\"password\":\"p\"}]''))
          ([Inr (page 200 (u ''x'') (u ''/2fa''))], []))) = 1"
proof -
  let ?env = "mock_env False no_parser (loads_as (JArr [account_ab, account_at]))"
  let ?raw = "u ''[{\"email\":\"ab@c\",\"password\":\"p\"},{\"email\":\"@c\",\"password\":\"p\"}]''"
  let ?w0 = "([Inr (page 200 (u ''x'') (u ''/2fa''))], [])"
  let ?w1 = "([], [session_call (u ''GET'') (DEFAULT_BASE_URL @ u ''/index.php?rp=/login'')
        \<lparr>headers = browser_headers DEFAULT_BASE_URL, data = None, allow_redirects = None\<rparr>])"
  let ?r = "(TWO_FA, u ''a*@c'', JStr (u ''2FA or human verification detected on login page''))"
  have login: "login_whmcs ?env (str_rstrip [0x2F] DEFAULT_BASE_URL) (u ''ab@c'') (u ''p'')
      (Session_new ?env ?w0) =
    (Inr (TWO_FA, JStr (u ''2FA or human verification detected on login page'')), ?w1)"
    by (simp add: mock_session_new default_base_url_stripped mock_login_challenge)
  have first: "process_account ?env [] account_ab ?w0 = (Inr ?r, ?w1)"
    by (simp add: process_account_fields [OF account_ab_fields(1-5)] account_ab_fields(6,7)
          login_and_checkin_cases [OF login])
  have second: "process_account ?env [] account_at ?w1
      = (Inl (Exn (u ''IndexError'') (u ''string index out of range'')), ?w1)"
    by (rule process_account_label_raises [OF account_at_label(1)])
  have run: "run_accounts ?env [] [account_ab, account_at] [] ?w0
      = (Inl (Exn (u ''IndexError'') (u ''string index out of range'')), ?w1)"
    by (simp add: first second)
  have raw: "?raw \<noteq> []" by (simp add: u_def)
  have "main ?env (only_accounts ?raw) ?w0
      = (Inl (Exn (u ''IndexError'') (u ''string index out of range'')), ?w1)"
    using main_uncaught [where environ = "only_accounts ?raw" and raw = ?raw and env = ?env
        and w = ?w0 and accounts = "[account_ab, account_at]"]
    by (simp add: only_accounts_env raw mock_json_loads run del: run_accounts.simps)
  with first show ?thesis by (simp add: exit_status_def)
qed

text \<open>
  Claim C10 against the code. An account without a password is recorded as \<open>FAILED\<close>
  with \<open>Missing credentials\<close> and nothing is sent, as claimed, whenever its label can
  be computed (\<open>missing_credentials_recorded\<close>, \<open>all_missing_exit_1\<close>). The label is
  computed first, though: for the record with the email \<open>@c\<close>, no label and no password,
  \<open>mask_email\<close> raises \<open>IndexError\<close> before the credentials are looked at, nothing is
  recorded and the exception leaves \<open>main\<close>.
\<close>

theorem missing_password_crashes_on_label:
  "stripped_field account_at_no_password (u ''password'') [] = Inr [] \<and>
   process_account env chat account_at_no_password w
     = (Inl (Exn (u ''IndexError'') (u ''string index out of range'')), w) \<and>
   main (mock_env False no_parser (loads_as (JArr [account_at_no_password])))
        (only_accounts (u ''[{\"email\":\"@c\"}]'')) ([], [])
     = (Inl (Exn (u ''IndexError'') (u ''string index out of range'')), ([], []))"
proof -
  let ?env = "mock_env False no_parser (loads_as (JArr [account_at_no_password]))"
  let ?raw = "u ''[{\"email\":\"@c\"}]''"
  have p: "process_account env chat account_at_no_password w
      = (Inl (Exn (u ''IndexError'') (u ''string index out of range'')), w)"
    by (rule process_account_label_raises [OF account_at_label(2)])
  have run: "run_accounts ?env [] [account_at_no_password] [] ([], [])
      = (Inl (Exn (u ''IndexError'') (u ''string index out of range'')), ([], []))"
    by (simp add: process_account_label_raises [OF account_at_label(2)])
  have raw: "?raw \<noteq> []" by (simp add: u_def)
  have "main ?env (only_accounts ?raw) ([], [])
      = (Inl (Exn (u ''IndexError'') (u ''string index out of range'')), ([], []))"
    using main_uncaught [where environ = "only_accounts ?raw" and raw = ?raw and env = ?env
        and w = "([], [])" and accounts = "[account_at_no_password]"]
    by (simp add: only_accounts_env raw mock_json_loads run del: run_accounts.simps)
  with p account_at_label(4) show ?thesis by simp
qed

end
